theory Spec2Isabelle
  imports Complex_Main "HOL-Library.Char_ord" "HOL-Library.List_Lexorder" "HOL-Library.Multiset"
begin

section \<open>JavaScript values\<close>

text \<open>
  The dashboard is JavaScript; the functions embedded below call a handful of built-ins
  (\<^verbatim>\<open>String\<close>, \<^verbatim>\<open>parseFloat\<close>, unary plus, \<^verbatim>\<open>isNaN\<close>, \<^verbatim>\<open>isFinite\<close>, \<^verbatim>\<open>trim\<close>,
  \<^verbatim>\<open>toUpperCase\<close>, \<^verbatim>\<open>Set\<close>, \<^verbatim>\<open>sort\<close>). This section fixes what they mean here.

  \<^item> A string is a HOL \<open>string\<close>: one \<open>char\<close> per UTF-16 code unit, for code units below
    256. On such strings \<^verbatim>\<open>Array.from\<close> yields one element per \<open>char\<close> and
    \<^verbatim>\<open>charCodeAt(0)\<close> is \<open>of_char\<close>.
  \<^item> A number is \<open>NaN\<close>, an infinity, or a finite decimal \<open>Fin m e\<close> standing for
    \<open>m * 10 ^ e\<close>, kept normalised (\<open>m\<close> not divisible by 10, zero is \<open>Fin 0 0\<close>) so that
    equal numbers are equal terms. Decimal literals denote their exact value: the
    rounding of IEEE doubles, overflow to infinity and the sign of zero are not modelled.
  \<^item> \<^verbatim>\<open>undefined\<close> and \<^verbatim>\<open>null\<close> are values of their own.
\<close>

datatype jsnum = NaN | PosInfinity | NegInfinity | Fin int int

datatype jsval = Undefined | Null | Str string | Num jsnum

subsection \<open>Strings\<close>

text \<open>White space and line terminators, as \<^verbatim>\<open>trim\<close> and the numeric conversions strip them.\<close>

definition isWhiteSpace :: "char \<Rightarrow> bool" where
  "isWhiteSpace c = (c = CHR 0x09 \<or> c = CHR 0x0A \<or> c = CHR 0x0B \<or> c = CHR 0x0C
     \<or> c = CHR 0x0D \<or> c = CHR '' '' \<or> c = CHR 0xA0)"

definition trimStart :: "string \<Rightarrow> string" where
  "trimStart s = dropWhile isWhiteSpace s"

definition trim :: "string \<Rightarrow> string" where
  "trim s = rev (dropWhile isWhiteSpace (rev (dropWhile isWhiteSpace s)))"

text \<open>
  \<^verbatim>\<open>toUpperCase\<close>, on the letters a to z only: other characters are left as they are.
  No character outside a to z has an ASCII letter as its upper case, so every comparison
  of an upper-cased string with \<^verbatim>\<open>'NA'\<close> comes out as in the language.
\<close>

definition upperChar :: "char \<Rightarrow> char" where
  "upperChar c = (if CHR ''a'' \<le> c \<and> c \<le> CHR ''z'' then char_of (of_char c - (32::nat)) else c)"

definition toUpperCase :: "string \<Rightarrow> string" where
  "toUpperCase s = map upperChar s"

subsection \<open>Numbers\<close>

function norm10 :: "int \<Rightarrow> int \<Rightarrow> int \<times> int" where
  "norm10 m e = (if m = 0 then (0, 0)
     else if m mod 10 = 0 then norm10 (m div 10) (e + 1) else (m, e))"
  by pat_completeness auto
termination
  by (relation "measure (\<lambda>(m, e). nat \<bar>m\<bar>)") auto

declare norm10.simps [simp del]

definition mkFin :: "int \<Rightarrow> int \<Rightarrow> jsnum" where
  "mkFin m e = (case norm10 m e of (m', e') \<Rightarrow> Fin m' e')"

definition zero :: jsnum where
  "zero = Fin 0 0"

text \<open>The comparison \<^verbatim>\<open><\<close> on numbers: false as soon as one side is \<open>NaN\<close>.\<close>

definition fin_less :: "int \<Rightarrow> int \<Rightarrow> int \<Rightarrow> int \<Rightarrow> bool" where
  "fin_less m1 e1 m2 e2 =
     (if e1 \<le> e2 then m1 < m2 * 10 ^ nat (e2 - e1) else m1 * 10 ^ nat (e1 - e2) < m2)"

fun num_less :: "jsnum \<Rightarrow> jsnum \<Rightarrow> bool" where
  "num_less NaN _ = False"
| "num_less _ NaN = False"
| "num_less PosInfinity _ = False"
| "num_less NegInfinity NegInfinity = False"
| "num_less NegInfinity _ = True"
| "num_less (Fin m e) PosInfinity = True"
| "num_less (Fin m e) NegInfinity = False"
| "num_less (Fin m1 e1) (Fin m2 e2) = fin_less m1 e1 m2 e2"

subsection \<open>Numbers to strings\<close>

fun digits :: "nat \<Rightarrow> string" where
  "digits n = (if n < 10 then [''0123456789'' ! n]
     else digits (n div 10) @ [''0123456789'' ! (n mod 10)])"

declare digits.simps [simp del]

text \<open>
  \<^verbatim>\<open>Number::toString\<close>: with \<open>k\<close> significant digits and the decimal point after the
  \<open>n\<close>-th of them, plain notation for \<open>-6 < n \<le> 21\<close> and exponent notation otherwise.
\<close>

definition finToString :: "int \<Rightarrow> int \<Rightarrow> string" where
  "finToString m0 e0 = (case norm10 m0 e0 of (m, e) \<Rightarrow>
     if m = 0 then ''0''
     else
       let ds = digits (nat \<bar>m\<bar>);
           k = int (length ds);
           n = k + e;
           sgn = (if m < 0 then ''-'' else '''')
       in sgn @
         (if k \<le> n \<and> n \<le> 21 then ds @ replicate (nat (n - k)) (CHR ''0'')
          else if 0 < n \<and> n \<le> 21 then take (nat n) ds @ ''.'' @ drop (nat n) ds
          else if - 6 < n \<and> n \<le> 0 then ''0.'' @ replicate (nat (- n)) (CHR ''0'') @ ds
          else
            let ex = (if n - 1 < 0 then ''-'' else ''+'') @ digits (nat \<bar>n - 1\<bar>)
            in if k = 1 then ds @ ''e'' @ ex
               else take 1 ds @ ''.'' @ drop 1 ds @ ''e'' @ ex))"

fun numToString :: "jsnum \<Rightarrow> string" where
  "numToString NaN = ''NaN''"
| "numToString PosInfinity = ''Infinity''"
| "numToString NegInfinity = ''-Infinity''"
| "numToString (Fin m e) = finToString m e"

text \<open>\<^verbatim>\<open>String(v)\<close>.\<close>

fun toString :: "jsval \<Rightarrow> string" where
  "toString Undefined = ''undefined''"
| "toString Null = ''null''"
| "toString (Str s) = s"
| "toString (Num n) = numToString n"

subsection \<open>Strings to numbers\<close>

definition isDigit :: "char \<Rightarrow> bool" where
  "isDigit c = (CHR ''0'' \<le> c \<and> c \<le> CHR ''9'')"

definition digitVal :: "char \<Rightarrow> nat" where
  "digitVal c =
     (if CHR ''0'' \<le> c \<and> c \<le> CHR ''9'' then of_char c - 48
      else if CHR ''a'' \<le> c \<and> c \<le> CHR ''z'' then of_char c - 87
      else if CHR ''A'' \<le> c \<and> c \<le> CHR ''Z'' then of_char c - 55
      else 36)"

definition natOfDigits :: "nat \<Rightarrow> string \<Rightarrow> nat" where
  "natOfDigits base ds = foldl (\<lambda>n c. base * n + digitVal c) 0 ds"

text \<open>An optional sign: whether it is a minus, and the rest.\<close>

definition signOf :: "string \<Rightarrow> bool \<times> string" where
  "signOf s = (case s of
       [] \<Rightarrow> (False, s)
     | c # t \<Rightarrow> if c = CHR ''-'' then (True, t) else if c = CHR ''+'' then (False, t) else (False, s))"

text \<open>An exponent part is read only when at least one digit follows the \<open>e\<close>.\<close>

definition exponentPart :: "string \<Rightarrow> int \<times> string" where
  "exponentPart s = (case s of
       [] \<Rightarrow> (0, s)
     | c # t \<Rightarrow>
         if c = CHR ''e'' \<or> c = CHR ''E'' then
           (case signOf t of (neg, t1) \<Rightarrow>
              let ds = takeWhile isDigit t1
              in if ds = [] then (0, s)
                 else ((if neg then - int (natOfDigits 10 ds) else int (natOfDigits 10 ds)),
                       dropWhile isDigit t1))
         else (0, s))"

text \<open>
  The longest prefix of \<open>s\<close> that is a \<^verbatim>\<open>StrDecimalLiteral\<close> of the language grammar
  (sign, then \<^verbatim>\<open>Infinity\<close> or digits with an optional fraction and exponent): its value
  and what follows it.
\<close>

definition strDecimalLiteral :: "string \<Rightarrow> (jsnum \<times> string) option" where
  "strDecimalLiteral s = (case signOf s of (neg, s1) \<Rightarrow>
     if take 8 s1 = ''Infinity'' then Some (if neg then NegInfinity else PosInfinity, drop 8 s1)
     else
       let ip = takeWhile isDigit s1;
           s2 = dropWhile isDigit s1;
           hasDot = (s2 \<noteq> [] \<and> hd s2 = CHR ''.'');
           fp = (if hasDot then takeWhile isDigit (tl s2) else []);
           s3 = (if hasDot then dropWhile isDigit (tl s2) else s2)
       in if ip = [] \<and> fp = [] then None
          else (case exponentPart s3 of (ex, s4) \<Rightarrow>
            let m = int (natOfDigits 10 (ip @ fp))
            in Some (mkFin (if neg then - m else m) (ex - int (length fp)), s4)))"

text \<open>\<^verbatim>\<open>parseFloat\<close> on a string: leading white space is skipped, trailing text ignored.\<close>

definition parseFloatStr :: "string \<Rightarrow> jsnum" where
  "parseFloatStr s = (case strDecimalLiteral (trimStart s) of None \<Rightarrow> NaN | Some (n, _) \<Rightarrow> n)"

definition nonDecimal :: "nat \<Rightarrow> string \<Rightarrow> jsnum" where
  "nonDecimal base ds =
     (if ds \<noteq> [] \<and> list_all (\<lambda>c. digitVal c < base) ds then mkFin (int (natOfDigits base ds)) 0
      else NaN)"

text \<open>
  \<^verbatim>\<open>StringToNumber\<close>, the conversion behind unary plus and \<^verbatim>\<open>isFinite\<close>: the trimmed
  string must be a numeric literal as a whole; the empty string converts to zero.
\<close>

definition StringToNumber :: "string \<Rightarrow> jsnum" where
  "StringToNumber s = (let t = trim s in
     if t = [] then zero
     else if take 2 t = ''0x'' \<or> take 2 t = ''0X'' then nonDecimal 16 (drop 2 t)
     else if take 2 t = ''0o'' \<or> take 2 t = ''0O'' then nonDecimal 8 (drop 2 t)
     else if take 2 t = ''0b'' \<or> take 2 t = ''0B'' then nonDecimal 2 (drop 2 t)
     else (case strDecimalLiteral t of
         Some (n, rest) \<Rightarrow> if rest = [] then n else NaN
       | None \<Rightarrow> NaN))"

text \<open>Unary plus \<^verbatim>\<open>+v\<close>.\<close>

fun toNumber :: "jsval \<Rightarrow> jsnum" where
  "toNumber Undefined = NaN"
| "toNumber Null = zero"
| "toNumber (Str s) = StringToNumber s"
| "toNumber (Num n) = n"

definition parseFloat :: "jsval \<Rightarrow> jsnum" where
  "parseFloat v = parseFloatStr (toString v)"

definition isNaN :: "jsval \<Rightarrow> bool" where
  "isNaN v = (toNumber v = NaN)"

definition isFinite :: "jsval \<Rightarrow> bool" where
  "isFinite v = (case toNumber v of Fin m e \<Rightarrow> True | _ \<Rightarrow> False)"

text \<open>Truthiness, as \<^verbatim>\<open>?:\<close>, \<^verbatim>\<open>||\<close> and \<^verbatim>\<open>if\<close> test it.\<close>

fun truthyNum :: "jsnum \<Rightarrow> bool" where
  "truthyNum NaN = False"
| "truthyNum (Fin m e) = (m \<noteq> 0)"
| "truthyNum _ = True"

fun truthy :: "jsval \<Rightarrow> bool" where
  "truthy Undefined = False"
| "truthy Null = False"
| "truthy (Str s) = (s \<noteq> [])"
| "truthy (Num n) = truthyNum n"

section \<open>Helpers of the dashboard\<close>

text \<open>
  \<^verbatim>\<open>const unique = arr => [...new Set(arr)]\<close>: a \<^verbatim>\<open>Set\<close> keeps the first occurrence of
  each value, in insertion order.
\<close>

fun unique :: "'a list \<Rightarrow> 'a list" where
  "unique [] = []"
| "unique (x # xs) = x # unique (filter (\<lambda>y. y \<noteq> x) xs)"

text \<open>
  \<^verbatim>\<open>const hash = str => str ? Array.from(String(str)).reduce((h, c) => h + c.charCodeAt(0), 0) : 0\<close>
\<close>

definition hash :: "jsval \<Rightarrow> nat" where
  "hash str = (if truthy str then foldl (\<lambda>h c. h + of_char c) 0 (toString str) else 0)"

text \<open>The palette \<^verbatim>\<open>d3.schemeTableau10\<close>.\<close>

definition schemeTableau10 :: "string list" where
  "schemeTableau10 = [''#4e79a7'', ''#f28e2c'', ''#e15759'', ''#76b7b2'', ''#59a14f'',
     ''#edc949'', ''#af7aa1'', ''#ff9da7'', ''#9c755f'', ''#bab0ab'']"

text \<open>
  The fill of a point of the scatter plot, for the record's value \<open>v\<close> of the colour
  descriptor: \<^verbatim>\<open>d3.schemeTableau10[hash(d.descriptors[colourDesc]) % 10]\<close>.
\<close>

definition pointFill :: "jsval \<Rightarrow> string" where
  "pointFill v = schemeTableau10 ! (hash v mod 10)"

section \<open>The Newick parser\<close>

text \<open>
  A parsed node is a JavaScript object with optional fields: \<^verbatim>\<open>branchset\<close> (the children
  of a group), \<^verbatim>\<open>name\<close> and \<^verbatim>\<open>length\<close>. An absent field is \<open>None\<close>.
\<close>

datatype node = Node (branchset: "node list option") (node_name: "string option")
  (node_length: "jsnum option")

text \<open>\<^verbatim>\<open>newick[pos]\<close>: \<^verbatim>\<open>undefined\<close> (here \<open>None\<close>) at and beyond the end of the string.\<close>

definition charAt :: "string \<Rightarrow> nat \<Rightarrow> char option" where
  "charAt newick pos = (if pos < length newick then Some (newick ! pos) else None)"

text \<open>
  The loop of \<^verbatim>\<open>parseNameAndLength\<close>, with the cursor \<open>pos\<close> and its three local
  variables as arguments; it returns them with the cursor where the loop stopped.
\<close>

function scanNameAndLength :: "string \<Rightarrow> nat \<Rightarrow> string \<Rightarrow> string \<Rightarrow> bool \<Rightarrow> string \<times> string \<times> nat" where
  "scanNameAndLength newick pos name lengthStr readingName =
     (if pos < length newick \<and> newick ! pos \<noteq> CHR '','' \<and> newick ! pos \<noteq> CHR '')''
         \<and> newick ! pos \<noteq> CHR '';''
      then
        (if newick ! pos = CHR '':'' then scanNameAndLength newick (pos + 1) name lengthStr False
         else if readingName
           then scanNameAndLength newick (pos + 1) (name @ [newick ! pos]) lengthStr readingName
           else scanNameAndLength newick (pos + 1) name (lengthStr @ [newick ! pos]) readingName)
      else (name, lengthStr, pos))"
  by pat_completeness auto
termination
  by (relation "measure (\<lambda>(newick, pos, name, lengthStr, readingName). length newick - pos)") auto

declare scanNameAndLength.simps [simp del]

text \<open>
  \<^verbatim>\<open>return { name: name.trim() || undefined, length: parseFloat(lengthStr) || 0 }\<close>,
  together with the new cursor.
\<close>

definition parseNameAndLength :: "string \<Rightarrow> nat \<Rightarrow> (string option \<times> jsnum) \<times> nat" where
  "parseNameAndLength newick pos =
     (case scanNameAndLength newick pos [] [] True of (name, lengthStr, pos') \<Rightarrow>
        ((if trim name \<noteq> [] then Some (trim name) else None,
          if truthyNum (parseFloatStr lengthStr) then parseFloatStr lengthStr else zero),
         pos'))"

text \<open>
  \<^verbatim>\<open>parseSubtree\<close> calls itself inside \<^verbatim>\<open>while (newick[pos] !== ')')\<close>, a loop with no
  test for the end of the input, so it need not return. The first argument counts the
  calls and iterations still allowed; \<open>None\<close> means that they were used up.
  \<open>parseChildren\<close> is the \<^verbatim>\<open>while\<close> loop, with the array \<^verbatim>\<open>children\<close> built so far.
\<close>

fun parseSubtree :: "nat \<Rightarrow> string \<Rightarrow> nat \<Rightarrow> (node \<times> nat) option"
  and parseChildren :: "nat \<Rightarrow> string \<Rightarrow> nat \<Rightarrow> node list \<Rightarrow> (node list \<times> nat) option" where
  "parseSubtree 0 newick pos = None"
| "parseSubtree (Suc fuel) newick pos =
     (if charAt newick pos = Some (CHR ''('') then
        (case parseChildren fuel newick (pos + 1) [] of
           None \<Rightarrow> None
         | Some (children, pos1) \<Rightarrow>
             (case parseNameAndLength newick (pos1 + 1) of ((name, len), pos2) \<Rightarrow>
                Some (Node (Some children) name (if truthyNum len then Some len else None), pos2)))
      else
        (case parseNameAndLength newick pos of ((name, len), pos1) \<Rightarrow>
           Some (Node None (Some (case name of Some n \<Rightarrow> n | None \<Rightarrow> ''internal'')) (Some len), pos1)))"
| "parseChildren 0 newick pos children = None"
| "parseChildren (Suc fuel) newick pos children =
     (if charAt newick pos \<noteq> Some (CHR '')'') then
        (case parseSubtree fuel newick pos of
           None \<Rightarrow> None
         | Some (child, pos1) \<Rightarrow>
             parseChildren fuel newick (if charAt newick pos1 = Some (CHR '','') then pos1 + 1 else pos1)
               (children @ [child]))
      else Some (children, pos))"

text \<open>
  \<^verbatim>\<open>parseNewick\<close> computes \<^verbatim>\<open>trimmedNewick\<close> (the input trimmed and without its final
  semicolon) and passes it to \<^verbatim>\<open>parseSubtree\<close>, which takes no parameter and reads the
  untrimmed \<^verbatim>\<open>newick\<close> of the enclosing scope, from \<^verbatim>\<open>pos = 0\<close>.
\<close>

definition parseNewick :: "nat \<Rightarrow> string \<Rightarrow> node option" where
  "parseNewick fuel newick =
     (let trimmedNewick = (if trim newick \<noteq> [] \<and> last (trim newick) = CHR '';''
                           then butlast (trim newick) else trim newick)
      in map_option fst (parseSubtree fuel newick 0))"

subsection \<open>Predicates on parsed trees\<close>

text \<open>
  What the parser stores when the input has no branch length at all: a leaf carries the
  length 0, a group node carries no \<^verbatim>\<open>length\<close> field.
\<close>

fun lengthsDefault :: "node \<Rightarrow> bool" where
  "lengthsDefault (Node bs n l) =
     (case bs of None \<Rightarrow> l = Some zero | Some cs \<Rightarrow> l = None \<and> list_all lengthsDefault cs)"

text \<open>
  What the parser stores on any input: a leaf always carries a length, zero or a truthy
  number (never \<open>NaN\<close>); a group node carries a length only when it is truthy.
\<close>

fun lengthsStored :: "node \<Rightarrow> bool" where
  "lengthsStored (Node bs n l) =
     (case bs of
        None \<Rightarrow> (case l of None \<Rightarrow> False | Some x \<Rightarrow> x = zero \<or> truthyNum x)
      | Some cs \<Rightarrow> (case l of None \<Rightarrow> True | Some x \<Rightarrow> truthyNum x) \<and> list_all lengthsStored cs)"

subsection \<open>Well-formed Newick text\<close>

text \<open>
  Newick text as the format intends it, to state on which inputs the parser returns: a
  tree of labels, written with parentheses and commas. A label is the text after a
  node, name and optional \<^verbatim>\<open>:length\<close> together; it may be empty, and it holds neither a
  character that ends a label nor an opening parenthesis. A leaf is its label, so
  \<^verbatim>\<open>(,)\<close> and \<^verbatim>\<open>()\<close> are well formed.
\<close>

datatype newick_tree = Leaf string | Group "newick_tree list" string

fun render :: "newick_tree \<Rightarrow> string" and renderList :: "newick_tree list \<Rightarrow> string" where
  "render (Leaf l) = l"
| "render (Group ts l) = ''('' @ renderList ts @ '')'' @ l"
| "renderList [] = []"
| "renderList [t] = render t"
| "renderList (t # t' # ts) = render t @ '','' @ renderList (t' # ts)"

definition isStop :: "char \<Rightarrow> bool" where
  "isStop c = (c = CHR '','' \<or> c = CHR '')'' \<or> c = CHR '';'')"

definition labelOk :: "string \<Rightarrow> bool" where
  "labelOk l = list_all (\<lambda>c. \<not> isStop c \<and> c \<noteq> CHR ''('') l"

fun wellFormed :: "newick_tree \<Rightarrow> bool" where
  "wellFormed (Leaf l) = labelOk l"
| "wellFormed (Group ts l) = (labelOk l \<and> list_all wellFormed ts)"

definition stopStart :: "string \<Rightarrow> bool" where
  "stopStart rest = (rest = [] \<or> isStop (hd rest))"

section \<open>Records, ingest and the descriptor classifier\<close>

text \<open>
  One entry of \<^verbatim>\<open>state.allSequences\<close>: \<^verbatim>\<open>{accession, pmid, descriptors}\<close>. The two
  identifiers are \<^verbatim>\<open>undefined\<close> (\<open>None\<close>) when the CSV has no such column; the
  descriptors are an object from column names to values.
\<close>

record sequence =
  accession :: "string option"
  pmid :: "string option"
  seq_descriptors :: "string \<rightharpoonup> jsval"

text \<open>\<^verbatim>\<open>s.descriptors[key]\<close>: \<^verbatim>\<open>undefined\<close> for a key the object does not have.\<close>

definition descriptorOf :: "sequence \<Rightarrow> string \<Rightarrow> jsval" where
  "descriptorOf s key = (case seq_descriptors s key of None \<Rightarrow> Undefined | Some v \<Rightarrow> v)"

datatype descriptor_type = numerical | categorical

record descriptor_info =
  type :: descriptor_type
  domain :: "jsval list"

text \<open>
  The global \<^verbatim>\<open>state\<close>, without \<^verbatim>\<open>activePanel\<close> and \<^verbatim>\<open>filters\<close>, which none of the
  functions embedded here reads or writes.
\<close>

record state =
  allSequences :: "sequence list"
  sequences :: "sequence list"
  papers :: "string option list"
  tree :: "node option"
  descriptors :: "string list"
  descriptorInfo :: "string \<rightharpoonup> descriptor_info"

subsection \<open>Ingest coercion\<close>

text \<open>
  The coercion of one CSV cell in \<^verbatim>\<open>loadDashboard\<close>:
  \<^verbatim>\<open>const num = +v; return [k, isNaN(num) || v === '' ? v : num]\<close>.
\<close>

definition coerce :: "string \<Rightarrow> jsval" where
  "coerce v = (let num = StringToNumber v in if num = NaN \<or> v = [] then Str v else Num num)"

subsection \<open>Library functions the classifier calls\<close>

text \<open>
  \<^verbatim>\<open>d3.extent\<close> of an array of numbers, as the d3-array library defines it: the first
  value that compares with itself starts both ends, every later value moves an end when
  it is smaller than the minimum or larger than the maximum; \<open>NaN\<close> compares with
  nothing and is skipped. Without a comparable value both ends are \<^verbatim>\<open>undefined\<close>.
\<close>

fun extentStep :: "(jsnum \<times> jsnum) option \<Rightarrow> jsnum \<Rightarrow> (jsnum \<times> jsnum) option" where
  "extentStep None v = (if v \<noteq> NaN then Some (v, v) else None)"
| "extentStep (Some (mn, mx)) v =
     Some (if num_less v mn then v else mn, if num_less mx v then v else mx)"

definition extent :: "jsnum list \<Rightarrow> jsval list" where
  "extent vs = (case foldl extentStep None vs of
       None \<Rightarrow> [Undefined, Undefined]
     | Some (mn, mx) \<Rightarrow> [Num mn, Num mx])"

text \<open>
  \<^verbatim>\<open>Array.prototype.sort()\<close> without a comparator: \<^verbatim>\<open>undefined\<close> goes last, the other
  elements are ordered by their strings, compared code unit by code unit; the sort is
  stable. \<open>sort_key\<close> is the stable insertion sort of the list library; the order on
  strings is the lexicographic one.
\<close>

definition jsSort :: "jsval list \<Rightarrow> jsval list" where
  "jsSort xs = sort_key toString (filter (\<lambda>v. v \<noteq> Undefined) xs) @ filter (\<lambda>v. v = Undefined) xs"

subsection \<open>The classifier\<close>

text \<open>
  The filter of \<^verbatim>\<open>analyzeDescriptors\<close>:
  \<^verbatim>\<open>v !== null && v !== undefined && String(v).trim() !== '' && String(v).toUpperCase() !== 'NA'\<close>.
\<close>

definition nonMissing :: "jsval \<Rightarrow> bool" where
  "nonMissing v = (v \<noteq> Null \<and> v \<noteq> Undefined \<and> trim (toString v) \<noteq> []
     \<and> toUpperCase (toString v) \<noteq> ''NA'')"

text \<open>The test that counts a value as numeric: \<^verbatim>\<open>!isNaN(parseFloat(v)) && isFinite(v)\<close>.\<close>

definition isNumeric :: "jsval \<Rightarrow> bool" where
  "isNumeric v = (parseFloat v \<noteq> NaN \<and> isFinite v)"

text \<open>
  The body of the \<^verbatim>\<open>forEach\<close> of \<^verbatim>\<open>analyzeDescriptors\<close> for one key, as a function of
  the column \<^verbatim>\<open>state.allSequences.map(s => s.descriptors[key])\<close>. The quotient
  \<^verbatim>\<open>numericCount / values.length\<close> is taken in the reals: for arrays of any length a
  browser can hold, the double quotient exceeds the double \<^verbatim>\<open>0.8\<close> exactly when the
  real quotient exceeds 4/5.
\<close>

definition analyzeColumn :: "jsval list \<Rightarrow> descriptor_info" where
  "analyzeColumn column =
     (let values = filter nonMissing column in
      if length values = 0 then \<lparr>type = categorical, domain = []\<rparr>
      else
        let numericCount = length (filter isNumeric values);
            uniqueValues = unique values;
            isNumerical = (real numericCount / real (length values) > 0.8 \<and> length uniqueValues > 6);
            ty = (if isNumerical then numerical else categorical)
        in \<lparr>type = ty,
            domain = (if ty = numerical then extent (map toNumber values) else jsSort uniqueValues)\<rparr>)"

definition columnOf :: "state \<Rightarrow> string \<Rightarrow> jsval list" where
  "columnOf st key = map (\<lambda>s. descriptorOf s key) (allSequences st)"

text \<open>One round of the \<^verbatim>\<open>forEach\<close>: \<^verbatim>\<open>state.descriptorInfo[key] = { type, domain }\<close>.\<close>

definition analyzeKey :: "state \<Rightarrow> string \<Rightarrow> state" where
  "analyzeKey st key =
     st\<lparr>descriptorInfo := (descriptorInfo st)(key \<mapsto> analyzeColumn (columnOf st key))\<rparr>"

definition analyzeDescriptors :: "state \<Rightarrow> state" where
  "analyzeDescriptors st = foldl analyzeKey st (descriptors st)"

subsection \<open>Notions used to state the classifier's properties\<close>

text \<open>The real number a finite decimal stands for.\<close>

definition fin_val :: "int \<Rightarrow> int \<Rightarrow> real" where
  "fin_val m e = of_int m * 10 powi e"

text \<open>
  \<open>lo\<close> and \<open>hi\<close> are the minimum and the maximum of the set \<open>P\<close> of numbers: both belong
  to it, no member is less than \<open>lo\<close> and none is greater than \<open>hi\<close>.
\<close>

definition isExtent :: "jsnum set \<Rightarrow> jsnum \<Rightarrow> jsnum \<Rightarrow> bool" where
  "isExtent P lo hi = (lo \<in> P \<and> hi \<in> P \<and> (\<forall>x\<in>P. \<not> num_less x lo \<and> \<not> num_less hi x))"

section \<open>Colouring the tree\<close>

subsection \<open>The hierarchy of d3\<close>

text \<open>
  A node of \<^verbatim>\<open>d3.hierarchy\<close>: the parsed node it wraps (\<^verbatim>\<open>data\<close>), the number that
  \<^verbatim>\<open>sum\<close> stores (\<^verbatim>\<open>value\<close>), the colour that \<^verbatim>\<open>drawTree\<close> attaches (\<open>None\<close> until it
  is assigned) and the children; the empty list stands for an absent \<^verbatim>\<open>children\<close> field.
  The functions of this subsection follow the d3-hierarchy library as published.
\<close>

datatype hnode = HNode (data: node) (hvalue: nat) (color: "string option") (children: "hnode list")

text \<open>
  \<^verbatim>\<open>d3.hierarchy(state.tree, d => d.branchset)\<close>: a node gets children only when the
  accessor returns a non-empty array, so a group with an empty \<^verbatim>\<open>branchset\<close> becomes a
  node without children.
\<close>

fun hierarchy :: "node \<Rightarrow> hnode" where
  "hierarchy (Node bs n l) =
     HNode (Node bs n l) 0 None (case bs of None \<Rightarrow> [] | Some cs \<Rightarrow> map hierarchy cs)"

text \<open>\<^verbatim>\<open>.sum(d => (d.branchset ? 0 : 1))\<close>; an array is truthy even when it is empty.\<close>

fun hsum :: "hnode \<Rightarrow> hnode" where
  "hsum (HNode d v c cs) =
     HNode d ((if branchset d \<noteq> None then 0 else 1) + sum_list (map (hvalue \<circ> hsum) cs)) c (map hsum cs)"

text \<open>
  \<^verbatim>\<open>d3.ascending\<close> on two \<^verbatim>\<open>length\<close> fields; the result \<open>None\<close> stands for \<open>NaN\<close>, which
  it returns when a field is absent.
\<close>

definition ascending :: "jsnum option \<Rightarrow> jsnum option \<Rightarrow> int option" where
  "ascending a b = (case a of
       None \<Rightarrow> None
     | Some x \<Rightarrow> (case b of
         None \<Rightarrow> None
       | Some y \<Rightarrow>
           if num_less x y then Some (- 1)
           else if num_less y x then Some 1
           else if x \<noteq> NaN \<and> y \<noteq> NaN then Some 0
           else None))"

text \<open>
  The comparator of \<^verbatim>\<open>drawTree\<close>:
  \<^verbatim>\<open>(a, b) => (a.value - b.value) || d3.ascending(a.data.length, b.data.length)\<close>.
\<close>

definition compareNodes :: "hnode \<Rightarrow> hnode \<Rightarrow> int option" where
  "compareNodes a b =
     (let v = int (hvalue a) - int (hvalue b)
      in if v \<noteq> 0 then Some v else ascending (node_length (data a)) (node_length (data b)))"

text \<open>
  \<^verbatim>\<open>Array.prototype.sort(compare)\<close> as a stable insertion sort: an element moves behind
  another only when the comparator returns a positive number (\<open>NaN\<close> counts as 0). For a
  comparator that is a consistent order this is the result the language prescribes; for
  another one the language leaves the order to the engine.
\<close>

fun insortBy :: "('a \<Rightarrow> 'a \<Rightarrow> int option) \<Rightarrow> 'a \<Rightarrow> 'a list \<Rightarrow> 'a list" where
  "insortBy cmp x [] = [x]"
| "insortBy cmp x (y # ys) =
     (if (case cmp x y of Some r \<Rightarrow> 0 < r | None \<Rightarrow> False) then y # insortBy cmp x ys
      else x # y # ys)"

definition sortBy :: "('a \<Rightarrow> 'a \<Rightarrow> int option) \<Rightarrow> 'a list \<Rightarrow> 'a list" where
  "sortBy cmp xs = foldr (insortBy cmp) xs []"

text \<open>
  \<^verbatim>\<open>.sort(compare)\<close> of the hierarchy sorts the children of every node. The comparator
  reads only \<^verbatim>\<open>value\<close> and \<^verbatim>\<open>data\<close>, which sorting the grandchildren does not change,
  so the children are sorted here after their own subtrees.
\<close>

fun hsort :: "hnode \<Rightarrow> hnode" where
  "hsort (HNode d v c cs) = HNode d v c (sortBy compareNodes (map hsort cs))"


fun leaves :: "hnode \<Rightarrow> hnode list" where
  "leaves (HNode d v c cs) = (if cs = [] then [HNode d v c cs] else concat (map leaves cs))"

subsection \<open>The ordinal colour scale\<close>

text \<open>
  \<^verbatim>\<open>colorScale\<close> is either \<^verbatim>\<open>d3.scaleOrdinal(d3.schemeTableau10).domain(colorInfo.domain)\<close>
  or the constant function \<^verbatim>\<open>() => "#ccc"\<close>. An ordinal scale of d3 is stateful: its
  domain is a list without duplicates, and a value that is not in the domain is appended
  to it when the scale is applied (the library's implicit domain); the colour of the
  value at index \<open>i\<close> of the domain is the palette's colour \<open>i mod 10\<close>.
\<close>

datatype colorScale = Ordinal "jsval list" | Constant

fun indexOf :: "'a list \<Rightarrow> 'a \<Rightarrow> nat option" where
  "indexOf [] x = None"
| "indexOf (y # ys) x = (if y = x then Some 0 else map_option Suc (indexOf ys x))"

fun applyScale :: "colorScale \<Rightarrow> jsval \<Rightarrow> string \<times> colorScale" where
  "applyScale Constant d = (''#ccc'', Constant)"
| "applyScale (Ordinal dm) d = (case indexOf dm d of
       Some i \<Rightarrow> (schemeTableau10 ! (i mod 10), Ordinal dm)
     | None \<Rightarrow> (schemeTableau10 ! (length dm mod 10), Ordinal (dm @ [d])))"

subsection \<open>The two passes of \<^verbatim>\<open>drawTree\<close>\<close>

text \<open>
  The body of \<^verbatim>\<open>root.leaves().forEach\<close> for one leaf, with the scale before and after:
  \<^verbatim>\<open>const seq = state.sequences.find(s => s.accession === leaf.data.name);\<close>
  \<^verbatim>\<open>leaf.color = (seq && colorInfo) ? colorScale(seq.descriptors[colorDesc]) : "#ccc";\<close>
\<close>

definition colorLeaf :: "sequence list \<Rightarrow> string \<Rightarrow> descriptor_info option \<Rightarrow> colorScale \<Rightarrow> hnode
    \<Rightarrow> hnode \<times> colorScale" where
  "colorLeaf seqs colorDesc colorInfo scale leaf =
     (case find (\<lambda>s. accession s = node_name (data leaf)) seqs of
        None \<Rightarrow> (HNode (data leaf) (hvalue leaf) (Some ''#ccc'') (children leaf), scale)
      | Some sq \<Rightarrow>
          if colorInfo \<noteq> None then
            (case applyScale scale (descriptorOf sq colorDesc) of (c, scale') \<Rightarrow>
               (HNode (data leaf) (hvalue leaf) (Some c) (children leaf), scale'))
          else (HNode (data leaf) (hvalue leaf) (Some ''#ccc'') (children leaf), scale))"

text \<open>
  The first pass visits the leaves from left to right; the traversal carries the scale
  from one leaf to the next.
\<close>

fun colorLeaves :: "sequence list \<Rightarrow> string \<Rightarrow> descriptor_info option \<Rightarrow> colorScale \<Rightarrow> hnode
    \<Rightarrow> hnode \<times> colorScale"
  and colorLeavesList :: "sequence list \<Rightarrow> string \<Rightarrow> descriptor_info option \<Rightarrow> colorScale \<Rightarrow> hnode list
    \<Rightarrow> hnode list \<times> colorScale" where
  "colorLeaves seqs colorDesc colorInfo scale (HNode d v c []) =
     colorLeaf seqs colorDesc colorInfo scale (HNode d v c [])"
| "colorLeaves seqs colorDesc colorInfo scale (HNode d v c (k # ks)) =
     (case colorLeavesList seqs colorDesc colorInfo scale (k # ks) of (ks', scale') \<Rightarrow>
        (HNode d v c ks', scale'))"
| "colorLeavesList seqs colorDesc colorInfo scale [] = ([], scale)"
| "colorLeavesList seqs colorDesc colorInfo scale (k # ks) =
     (case colorLeaves seqs colorDesc colorInfo scale k of (k', scale1) \<Rightarrow>
        (case colorLeavesList seqs colorDesc colorInfo scale1 ks of (ks', scale2) \<Rightarrow>
           (k' # ks', scale2)))"

text \<open>
  The second pass, \<^verbatim>\<open>root.eachAfter\<close>, children before their parent:
  \<^verbatim>\<open>if (!node.children) return;\<close>
  \<^verbatim>\<open>const firstChildColor = node.children[0].color;\<close>
  \<^verbatim>\<open>node.color = node.children.every(c => c.color === firstChildColor) ? firstChildColor : "#ccc";\<close>
\<close>

fun aggregate :: "hnode \<Rightarrow> hnode" where
  "aggregate (HNode d v c cs) =
     (if cs = [] then HNode d v c cs
      else
        let cs' = map aggregate cs;
            firstChildColor = color (hd cs')
        in HNode d v (if list_all (\<lambda>k. color k = firstChildColor) cs' then firstChildColor
                      else Some ''#ccc'') cs')"

text \<open>
  The coloured hierarchy that \<^verbatim>\<open>drawTree\<close> hands to the layout, for the value
  \<open>colorDesc\<close> of the colour selector; \<open>None\<close> when there is no tree.
\<close>

definition treeColors :: "string \<Rightarrow> state \<Rightarrow> hnode option" where
  "treeColors colorDesc st = (case tree st of
       None \<Rightarrow> None
     | Some t \<Rightarrow>
         let hroot = hsort (hsum (hierarchy t));
             colorInfo = descriptorInfo st colorDesc;
             colorScale = (case colorInfo of
                 None \<Rightarrow> Constant
               | Some info \<Rightarrow> if type info = categorical then Ordinal (unique (domain info)) else Constant)
         in Some (aggregate (fst (colorLeaves (sequences st) colorDesc colorInfo colorScale hroot))))"

subsection \<open>Notions used to state the colouring's properties\<close>






section \<open>Drawing, searching and loading\<close>

text \<open>
  What a JavaScript function can throw here: an \<^verbatim>\<open>Error\<close> with its message, or the
  \<^verbatim>\<open>TypeError\<close> of a method call on \<^verbatim>\<open>undefined\<close>.
\<close>

datatype error = Error string | TypeError

text \<open>
  \<^verbatim>\<open>drawTree\<close>, as far as the state and the data decide it: it returns at once without a
  tree; otherwise it colours the hierarchy and draws it, and both layouts label the
  leaves by \<^verbatim>\<open>.text(d => d.data.name.replace(/_/g, " "))\<close>, which throws for a leaf
  without a name. \<open>None\<close> means that it returned. The argument \<open>colorDesc\<close> is the value of
  the colour selector.
\<close>

definition drawTree :: "string \<Rightarrow> state \<Rightarrow> error option" where
  "drawTree colorDesc st = (case treeColors colorDesc st of
       None \<Rightarrow> None
     | Some colored \<Rightarrow>
         if list_ex (\<lambda>leaf. node_name (data leaf) = None) (leaves colored) then Some TypeError
         else None)"

subsection \<open>The search box\<close>

text \<open>
  \<^verbatim>\<open>String.prototype.split\<close> on a one-character separator, and
  \<^verbatim>\<open>String.prototype.includes\<close>.
\<close>

fun splitOn :: "char \<Rightarrow> string \<Rightarrow> string list" where
  "splitOn sep [] = [[]]"
| "splitOn sep (c # cs) =
     (if c = sep then [] # splitOn sep cs
      else (case splitOn sep cs of [] \<Rightarrow> [[c]] | p # ps \<Rightarrow> (c # p) # ps))"

fun includesStr :: "string \<Rightarrow> string \<Rightarrow> bool" where
  "includesStr [] t = (t = [])"
| "includesStr (c # s) t = (take (length t) (c # s) = t \<or> includesStr s t)"

text \<open>
  \<^verbatim>\<open>tokens.some(token => s.accession.toUpperCase().includes(token) ||\<close>
  \<^verbatim>\<open>(s.pmid && s.pmid.toUpperCase().includes(token)))\<close>; the call of \<^verbatim>\<open>toUpperCase\<close> throws
  when the record has no accession.
\<close>

fun someToken :: "sequence \<Rightarrow> string list \<Rightarrow> error + bool" where
  "someToken s [] = Inr False"
| "someToken s (token # tokens) = (case accession s of
       None \<Rightarrow> Inl TypeError
     | Some a \<Rightarrow>
         if includesStr (toUpperCase a) token
            \<or> (case pmid s of None \<Rightarrow> False | Some p \<Rightarrow> p \<noteq> [] \<and> includesStr (toUpperCase p) token)
         then Inr True
         else someToken s tokens)"

text \<open>\<^verbatim>\<open>state.allSequences.filter(...)\<close> with that predicate.\<close>

fun filterSequences :: "string list \<Rightarrow> sequence list \<Rightarrow> error + sequence list" where
  "filterSequences tokens [] = Inr []"
| "filterSequences tokens (s # ss) = (case someToken s tokens of
       Inl e \<Rightarrow> Inl e
     | Inr b \<Rightarrow> (case filterSequences tokens ss of
         Inl e \<Rightarrow> Inl e
       | Inr r \<Rightarrow> Inr (if b then s # r else r)))"

text \<open>
  The listener of the search box for the text \<open>v\<close>: it assigns \<^verbatim>\<open>state.sequences\<close> and
  redraws. The result is what it threw, if anything, and the state it left. Of the three
  redraws only \<^verbatim>\<open>drawTree\<close> is modelled; \<^verbatim>\<open>drawChart\<close> and \<^verbatim>\<open>drawHeat\<close> assign nothing to
  the state either.
\<close>

definition searchInput :: "string \<Rightarrow> string \<Rightarrow> state \<Rightarrow> error option \<times> state" where
  "searchInput colorDesc v st =
     (let tokens = filter (\<lambda>t. t \<noteq> []) (map (\<lambda>t. toUpperCase (trim t)) (splitOn (CHR '','') v))
      in case (if length tokens = 0 then Inr (allSequences st)
               else filterSequences tokens (allSequences st)) of
           Inl e \<Rightarrow> (Some e, st)
         | Inr found \<Rightarrow> (drawTree colorDesc (st\<lparr>sequences := found\<rparr>), st\<lparr>sequences := found\<rparr>))"

subsection \<open>Loading\<close>

text \<open>
  The result of \<^verbatim>\<open>d3.csvParse\<close>: the header and one object per data row, from column
  names to cells.
\<close>

record parsed_csv =
  columns :: "string list"
  rows :: "(string \<rightharpoonup> string) list"

text \<open>
  The object that \<^verbatim>\<open>loadDashboard\<close> builds from a row: the two identifiers, and the
  coerced cells of the other columns.
\<close>

definition ingestRow :: "(string \<rightharpoonup> string) \<Rightarrow> sequence" where
  "ingestRow d =
     \<lparr>accession = d ''accession'',
      pmid = d ''pmid'',
      seq_descriptors = (\<lambda>k. if k = ''pmid'' \<or> k = ''accession'' then None else map_option coerce (d k))\<rparr>"

datatype outcome = Loaded | Failed error

text \<open>
  \<^verbatim>\<open>loadDashboard\<close>, from the parsed CSV on. The two guards throw before anything is
  assigned. Then the state is assigned field by field, the tree is parsed and the
  descriptors are analysed; the controls are filled, which selects \<^verbatim>\<open>--none--\<close> as the
  tree colour, and the panels are drawn. Whatever is thrown on the way is caught by the
  \<^verbatim>\<open>catch\<close> block, which reports it and assigns nothing. The result is \<open>None\<close> when the
  parser does not return. Of the drawing calls only \<^verbatim>\<open>drawTree\<close> is modelled.
\<close>

definition loadDashboard :: "nat \<Rightarrow> string \<Rightarrow> parsed_csv \<Rightarrow> state \<Rightarrow> (outcome \<times> state) option" where
  "loadDashboard fuel newickString raw st =
     (if length (rows raw) = 0 then Some (Failed (Error ''CSV data is empty''), st)
      else if newickString = [] then Some (Failed (Error ''Tree data is empty''), st)
      else
        let st1 = st\<lparr>descriptors := filter (\<lambda>k. k \<noteq> ''pmid'' \<and> k \<noteq> ''accession'') (columns raw)\<rparr>;
            st2 = st1\<lparr>allSequences := map ingestRow (rows raw)\<rparr>;
            st3 = st2\<lparr>sequences := allSequences st2\<rparr>;
            st4 = st3\<lparr>papers := unique (map (\<lambda>d. d ''pmid'') (rows raw))\<rparr>
        in case parseNewick fuel newickString of
             None \<Rightarrow> None
           | Some t \<Rightarrow>
               let st5 = analyzeDescriptors (st4\<lparr>tree := Some t\<rparr>)
               in (case drawTree ''--none--'' st5 of
                     Some e \<Rightarrow> Some (Failed e, st5)
                   | None \<Rightarrow> Some (Loaded, st5)))"

section \<open>Properties of the hash colouring\<close>

lemma hash_foldl_sum: "foldl (\<lambda>h c. h + of_char c) a cs = a + (\<Sum>c\<leftarrow>cs. (of_char c :: nat))"
  by (induction cs arbitrary: a) simp_all

lemma hash_truthy: "truthy v \<Longrightarrow> hash v = (\<Sum>c\<leftarrow>toString v. of_char c)"
  by (simp add: hash_def hash_foldl_sum)

lemma hash_falsy: "\<not> truthy v \<Longrightarrow> hash v = 0"
  by (simp add: hash_def)

lemma sum_list_of_char_mset:
  "mset cs = mset ds \<Longrightarrow> (\<Sum>c\<leftarrow>cs. (of_char c :: nat)) = (\<Sum>c\<leftarrow>ds. of_char c)"
proof -
  assume "mset cs = mset ds"
  then have "mset (map (of_char :: char \<Rightarrow> nat) cs) = mset (map of_char ds)"
    by (metis mset_map)
  then show ?thesis
    by (metis sum_mset_sum_list)
qed

text \<open>
  Claim C10. The fill colour depends on a descriptor value only through the sum of the
  character codes of its string form: two truthy values whose strings are permutations
  of each other get the same fill, and every falsy value (the empty string, zero,
  \<^verbatim>\<open>undefined\<close>) hashes to 0 and gets the palette's first colour.
\<close>

theorem hash_fill_permutation_invariant:
  "pointFill v = schemeTableau10 ! ((if truthy v then (\<Sum>c\<leftarrow>toString v. of_char c) else 0) mod 10)
   \<and> (truthy v \<and> truthy w \<and> mset (toString v) = mset (toString w)
        \<longrightarrow> hash v = hash w \<and> pointFill v = pointFill w)
   \<and> (\<not> truthy u \<longrightarrow> hash u = 0 \<and> pointFill u = ''#4e79a7'')"
proof (intro conjI impI)
  show "pointFill v = schemeTableau10 ! ((if truthy v then (\<Sum>c\<leftarrow>toString v. of_char c) else 0) mod 10)"
    by (simp add: pointFill_def hash_truthy hash_falsy)
next
  assume a: "truthy v \<and> truthy w \<and> mset (toString v) = mset (toString w)"
  then have "(\<Sum>c\<leftarrow>toString v. (of_char c :: nat)) = (\<Sum>c\<leftarrow>toString w. of_char c)"
    by (intro sum_list_of_char_mset) simp
  with a show "hash v = hash w"
    by (simp add: hash_truthy)
  then show "pointFill v = pointFill w"
    by (simp add: pointFill_def)
next
  assume "\<not> truthy u"
  then show "hash u = 0"
    by (rule hash_falsy)
  then show "pointFill u = ''#4e79a7''"
    by (simp add: pointFill_def schemeTableau10_def)
qed

theorem hash_fill_permutation_invariant_witness:
  "pointFill (Str ''ab'') = pointFill (Str ''ba'')
   \<and> hash (Str ''ab'') = 195
   \<and> pointFill (Str ''ab'') = ''#edc949''
   \<and> hash (Str '''') = 0 \<and> pointFill (Str '''') = ''#4e79a7''
   \<and> hash (Num (Fin 0 0)) = 0 \<and> pointFill (Num (Fin 0 0)) = ''#4e79a7''"
proof -
  have perm: "truthy (Str ''ab'') \<and> truthy (Str ''ba'')
      \<and> mset (toString (Str ''ab'')) = mset (toString (Str ''ba''))"
    by (simp add: add.commute)
  have falsy1: "\<not> truthy (Str '''')" and falsy2: "\<not> truthy (Num (Fin 0 0))"
    by simp_all
  have h: "hash (Str ''ab'') = 195"
    by (simp add: hash_def)
  have c: "pointFill (Str ''ab'') = ''#edc949''"
    by (simp add: pointFill_def h schemeTableau10_def)
  from hash_fill_permutation_invariant [of "Str ''ab''" "Str ''ba''" "Str ''''"]
       hash_fill_permutation_invariant [of "Str ''ab''" "Str ''ba''" "Num (Fin 0 0)"]
       perm falsy1 falsy2 h c
  show ?thesis
    by blast
qed

section \<open>Properties of the Newick parser\<close>

subsection \<open>More calls allowed never change a result\<close>

lemma parse_fuel_mono:
  "(parseSubtree fuel newick pos = Some r \<longrightarrow> parseSubtree (fuel + k) newick pos = Some r)
   \<and> (parseChildren fuel newick pos cs = Some rs \<longrightarrow> parseChildren (fuel + k) newick pos cs = Some rs)"
proof (induction fuel arbitrary: pos r cs rs)
  case 0
  show ?case by simp
next
  case (Suc fuel)
  show ?case
    using Suc.IH
    by (auto split: option.splits prod.splits if_splits)
qed

lemma parseSubtree_mono:
  "parseSubtree fuel newick pos = Some r \<Longrightarrow> fuel \<le> fuel' \<Longrightarrow> parseSubtree fuel' newick pos = Some r"
  using parse_fuel_mono [of fuel newick pos r "fuel' - fuel"] by simp

lemma parseChildren_mono:
  "parseChildren fuel newick pos cs = Some rs \<Longrightarrow> fuel \<le> fuel' \<Longrightarrow> parseChildren fuel' newick pos cs = Some rs"
  using parse_fuel_mono [of fuel newick pos _ "fuel' - fuel" cs rs] by simp

subsection \<open>The parser returns on well-formed text\<close>

lemma charAt_append: "charAt (pre @ xs) (length pre) = (case xs of [] \<Rightarrow> None | c # _ \<Rightarrow> Some c)"
  by (cases xs) (simp_all add: charAt_def)

lemma scan_label:
  "labelOk l \<Longrightarrow> stopStart rest \<Longrightarrow>
   snd (snd (scanNameAndLength (pre @ l @ rest) (length pre) nm ls rn)) = length pre + length l"
proof (induction l arbitrary: pre nm ls rn)
  case Nil
  then show ?case
    by (subst scanNameAndLength.simps) (cases rest; auto simp: stopStart_def isStop_def nth_append)
next
  case (Cons c l)
  from Cons.prems have c: "\<not> isStop c" and l: "labelOk l"
    by (simp_all add: labelOk_def)
  have eq: "pre @ (c # l) @ rest = (pre @ [c]) @ l @ rest" by simp
  have at: "(pre @ (c # l) @ rest) ! length pre = c" by (simp add: nth_append)
  have ih: "\<And>nm ls rn. snd (snd (scanNameAndLength ((pre @ [c]) @ l @ rest) (length (pre @ [c])) nm ls rn))
      = length (pre @ [c]) + length l"
    using Cons.IH [OF l Cons.prems(2)] by blast
  show ?case
    apply (subst scanNameAndLength.simps)
    using c ih at unfolding eq
    apply (auto simp: isStop_def nth_append)
    done
qed

lemma parseNameAndLength_label:
  "labelOk l \<Longrightarrow> stopStart rest \<Longrightarrow>
   snd (parseNameAndLength (pre @ l @ rest) (length pre)) = length pre + length l"
  using scan_label [of l rest pre "[]" "[]" True]
  by (auto simp: parseNameAndLength_def split: prod.splits)

lemma render_first:
  "wellFormed t \<Longrightarrow> render t = [] \<or> (\<exists>c cs. render t = c # cs \<and> c \<noteq> CHR '')'')"
  by (cases t; cases "render t") (auto simp: labelOk_def isStop_def)

lemma parse_wellFormed:
  shows "wellFormed t \<longrightarrow> (\<forall>pre rest. stopStart rest \<longrightarrow>
      (\<exists>fuel n. parseSubtree fuel (pre @ render t @ rest) (length pre) = Some (n, length pre + length (render t))))"
    and "list_all wellFormed ts \<longrightarrow> (\<forall>pre rest cs.
      (\<exists>fuel cs'. parseChildren fuel (pre @ renderList ts @ '')'' @ rest) (length pre) cs
          = Some (cs', length pre + length (renderList ts))))"
proof (induction t and ts rule: render_renderList.induct)
  case (1 l)
  show ?case
  proof (intro impI allI)
    fix pre rest
    assume wf: "wellFormed (Leaf l)" and st: "stopStart rest"
    from wf have lab: "labelOk l" by simp
    have "charAt (pre @ l @ rest) (length pre) \<noteq> Some (CHR ''('')"
    proof (cases l)
      case Nil
      with st show ?thesis
        by (cases rest) (auto simp: charAt_def stopStart_def isStop_def)
    next
      case (Cons c cs)
      with lab show ?thesis
        by (simp add: charAt_append labelOk_def)
    qed
    with parseNameAndLength_label [OF lab st, of pre]
    have "\<exists>n. parseSubtree (Suc 0) (pre @ render (Leaf l) @ rest) (length pre)
        = Some (n, length pre + length (render (Leaf l)))"
      by (auto split: prod.splits)
    then show "\<exists>fuel n. parseSubtree fuel (pre @ render (Leaf l) @ rest) (length pre)
        = Some (n, length pre + length (render (Leaf l)))"
      by blast
  qed
next
  case (2 ts l)
  show ?case
  proof (intro impI allI)
    fix pre rest
    assume wf: "wellFormed (Group ts l)" and st: "stopStart rest"
    then have lab: "labelOk l" and wfs: "list_all wellFormed ts" by simp_all
    from 2 wfs obtain fuel cs' where
      pc: "parseChildren fuel ((pre @ ''('') @ renderList ts @ '')'' @ (l @ rest)) (length (pre @ ''('')) []
         = Some (cs', length (pre @ ''('') + length (renderList ts))"
      by blast
    have s1: "(pre @ ''('') @ renderList ts @ '')'' @ (l @ rest) = pre @ render (Group ts l) @ rest"
      by simp
    have s2: "pre @ render (Group ts l) @ rest = (pre @ ''('' @ renderList ts @ '')'') @ l @ rest"
      by simp
    have pos: "length (pre @ ''('') + length (renderList ts) + 1 = length (pre @ ''('' @ renderList ts @ '')'')"
      by simp
    have nl: "snd (parseNameAndLength (pre @ render (Group ts l) @ rest)
          (length (pre @ ''('') + length (renderList ts) + 1))
        = length pre + length (render (Group ts l))"
      unfolding pos s2 using parseNameAndLength_label [OF lab st, of "pre @ ''('' @ renderList ts @ '')''"]
      by simp
    have at: "charAt (pre @ render (Group ts l) @ rest) (length pre) = Some (CHR ''('')"
      by (simp add: charAt_append)
    from pc at nl have "\<exists>n. parseSubtree (Suc fuel) (pre @ render (Group ts l) @ rest) (length pre)
        = Some (n, length pre + length (render (Group ts l)))"
      unfolding s1 by (auto split: prod.splits)
    then show "\<exists>fuel n. parseSubtree fuel (pre @ render (Group ts l) @ rest) (length pre)
        = Some (n, length pre + length (render (Group ts l)))"
      by blast
  qed
next
  case 3
  show ?case
  proof (intro impI allI)
    fix pre rest cs
    have "charAt (pre @ renderList [] @ '')'' @ rest) (length pre) = Some (CHR '')'')"
      by (simp add: charAt_append)
    then have "parseChildren (Suc 0) (pre @ renderList [] @ '')'' @ rest) (length pre) cs
        = Some (cs, length pre + length (renderList []))"
      by simp
    then show "\<exists>fuel cs'. parseChildren fuel (pre @ renderList [] @ '')'' @ rest) (length pre) cs
        = Some (cs', length pre + length (renderList []))"
      by blast
  qed
next
  case (4 t)
  show ?case
  proof (intro impI allI)
    fix pre rest cs
    assume "list_all wellFormed [t]"
    then have wf: "wellFormed t" by simp
    have st: "stopStart ('')'' @ rest)" by (simp add: stopStart_def isStop_def)
    from 4 wf st obtain fuel n where
      ps: "parseSubtree fuel (pre @ render t @ '')'' @ rest) (length pre) = Some (n, length pre + length (render t))"
      by blast
    have at2: "charAt (pre @ render t @ '')'' @ rest) (length pre + length (render t)) = Some (CHR '')'')"
      using charAt_append [of "pre @ render t" "'')'' @ rest"] by simp
    from parseSubtree_mono [OF ps, of "Suc fuel"]
    have ps': "parseSubtree (Suc fuel) (pre @ render t @ '')'' @ rest) (length pre) = Some (n, length pre + length (render t))"
      by simp
    from render_first [OF wf]
    show "\<exists>fuel cs'. parseChildren fuel (pre @ renderList [t] @ '')'' @ rest) (length pre) cs
        = Some (cs', length pre + length (renderList [t]))"
    proof
      assume r: "render t = []"
      with at2 have "parseChildren (Suc 0) (pre @ renderList [t] @ '')'' @ rest) (length pre) cs
          = Some (cs, length pre + length (renderList [t]))"
        by simp
      then show ?thesis by blast
    next
      assume "\<exists>c cs0. render t = c # cs0 \<and> c \<noteq> CHR '')''"
      then obtain c cs0 where r: "render t = c # cs0" and c: "c \<noteq> CHR '')''"
        by blast
      have at: "charAt (pre @ render t @ '')'' @ rest) (length pre) \<noteq> Some (CHR '')'')"
        by (simp add: charAt_append r c)
      from at at2 ps' have "parseChildren (Suc (Suc fuel)) (pre @ renderList [t] @ '')'' @ rest) (length pre) cs
          = Some (cs @ [n], length pre + length (renderList [t]))"
        by simp
      then show ?thesis by blast
    qed
  qed
next
  case (5 t t' ts)
  show ?case
  proof (intro impI allI)
    fix pre rest cs
    assume "list_all wellFormed (t # t' # ts)"
    then have wf: "wellFormed t" and wfs: "list_all wellFormed (t' # ts)" by simp_all
    let ?tail = "'','' @ renderList (t' # ts) @ '')'' @ rest"
    let ?s = "pre @ renderList (t # t' # ts) @ '')'' @ rest"
    have s1: "?s = pre @ render t @ ?tail" by simp
    have s2: "?s = (pre @ render t @ '','') @ renderList (t' # ts) @ '')'' @ rest" by simp
    have st: "stopStart ?tail" by (simp add: stopStart_def isStop_def)
    from 5 wf st obtain f1 n where
      ps: "parseSubtree f1 ?s (length pre) = Some (n, length pre + length (render t))"
      unfolding s1 by blast
    from 5 wfs obtain f2 cs' where
      pc: "parseChildren f2 ?s (length (pre @ render t @ '','')) (cs @ [n])
         = Some (cs', length (pre @ render t @ '','') + length (renderList (t' # ts)))"
      unfolding s2 by blast
    have at: "charAt ?s (length pre) \<noteq> Some (CHR '')'')"
      using render_first [OF wf] by (auto simp: charAt_append)
    have at2: "charAt ?s (length pre + length (render t)) = Some (CHR '','')"
      unfolding s1 using charAt_append [of "pre @ render t" ?tail] by simp
    have ps': "parseSubtree (max f1 f2) ?s (length pre) = Some (n, length pre + length (render t))"
      by (rule parseSubtree_mono [OF ps]) simp
    have pc': "parseChildren (max f1 f2) ?s (length pre + length (render t) + 1) (cs @ [n])
         = Some (cs', length pre + length (renderList (t # t' # ts)))"
      using parseChildren_mono [OF pc, of "max f1 f2"] by simp
    from at at2 ps' pc' have "parseChildren (Suc (max f1 f2)) ?s (length pre) cs
        = Some (cs', length pre + length (renderList (t # t' # ts)))"
      by simp
    then show "\<exists>fuel cs'. parseChildren fuel ?s (length pre) cs
        = Some (cs', length pre + length (renderList (t # t' # ts)))"
      by blast
  qed
qed

subsection \<open>What the parser returns\<close>

lemma parseNewick_wellFormed:
  assumes "wellFormed t" and "suffix = [] \<or> suffix = '';''"
  shows "\<exists>fuel n. parseNewick fuel (render t @ suffix) = Some n"
proof -
  from assms(2) have "stopStart suffix"
    by (auto simp: stopStart_def isStop_def)
  with parse_wellFormed(1) [of t] assms(1) obtain fuel n where
    "parseSubtree fuel ([] @ render t @ suffix) (length ([] :: string)) = Some (n, length ([] :: string) + length (render t))"
    by blast
  then have "parseNewick fuel (render t @ suffix) = Some n"
    by (simp add: parseNewick_def)
  then show ?thesis by blast
qed

lemma parseNewick_empty: "parseNewick (Suc fuel) [] = Some (Node None (Some ''internal'') (Some zero))"
proof -
  have "scanNameAndLength [] 0 [] [] True = ([], [], 0)"
    by (subst scanNameAndLength.simps) simp
  moreover have "parseFloatStr [] = NaN" by code_simp
  moreover have "trim [] = []" by (simp add: trim_def)
  ultimately have "parseNameAndLength [] 0 = ((None, zero), 0)"
    by (simp add: parseNameAndLength_def)
  then show ?thesis
    by (simp add: parseNewick_def charAt_def)
qed

text \<open>
  An unterminated group: once the cursor is at the end of the input, the loop of
  \<^verbatim>\<open>parseSubtree\<close> reads \<^verbatim>\<open>undefined\<close>, which is not \<^verbatim>\<open>')'\<close>, pushes a leaf named
  \<^verbatim>\<open>internal\<close> without moving the cursor, and goes round again: no number of calls is
  enough.
\<close>

lemma parseChildren_at_end:
  "length newick \<le> pos \<Longrightarrow> parseChildren fuel newick pos cs = None"
proof (induction fuel arbitrary: cs)
  case 0
  show ?case by simp
next
  case (Suc fuel)
  have at: "charAt newick pos = None"
    using Suc.prems by (simp add: charAt_def)
  have scan: "scanNameAndLength newick pos [] [] True = ([], [], pos)"
    using Suc.prems by (subst scanNameAndLength.simps) simp
  show ?case
  proof (cases fuel)
    case 0
    then show ?thesis using at by simp
  next
    case (Suc f)
    then have "\<exists>child. parseSubtree fuel newick pos = Some (child, pos)"
      using at scan by (simp add: parseNameAndLength_def)
    with at Suc.IH [OF Suc.prems] show ?thesis
      by auto
  qed
qed

lemma parseNewick_unterminated_never_returns: "parseNewick fuel ''(A'' = None"
proof (cases fuel)
  case 0
  then show ?thesis by (simp add: parseNewick_def)
next
  case (Suc f)
  have start: "charAt ''(A'' 0 = Some (CHR ''('')" by (simp add: charAt_def)
  have "parseChildren f ''(A'' 1 [] = None"
  proof (cases f)
    case 0
    then show ?thesis by simp
  next
    case (Suc g)
    have a1: "charAt ''(A'' 1 = Some (CHR ''A'')" by (simp add: charAt_def)
    have sc: "snd (parseNameAndLength ''(A'' 1) = 2"
      using parseNameAndLength_label [of "''A''" "[]" "''(''"]
      by (simp add: labelOk_def isStop_def stopStart_def)
    have a2: "charAt ''(A'' 2 = None" by (simp add: charAt_def)
    have rest: "\<And>cs. parseChildren g ''(A'' 2 cs = None"
      by (rule parseChildren_at_end) simp
    show ?thesis
    proof (cases g)
      case 0
      with Suc a1 show ?thesis by simp
    next
      case (Suc h)
      obtain nm ln p where pn: "parseNameAndLength ''(A'' 1 = ((nm, ln), p)"
        by (metis surj_pair)
      with sc have p: "p = 2" by simp
      from \<open>f = Suc g\<close> Suc a1 pn p a2 rest show ?thesis
        by simp
    qed
  qed
  with Suc start show ?thesis
    by (simp add: parseNewick_def)
qed

text \<open>
  Claim C3, as the code has it. \<^verbatim>\<open>parseNewick\<close> has no error result: when it returns, it
  returns a node. It returns on every well-formed Newick text, with or without the final
  semicolon. On the empty string it returns the leaf named \<^verbatim>\<open>internal\<close> with length 0;
  the empty Newick string is rejected by the guard of \<^verbatim>\<open>loadDashboard\<close>, before the
  parser is called. Nothing is stated about text that is not well formed and not empty.
\<close>

theorem parseNewick_returns_a_node:
  "(wellFormed t \<and> (suffix = [] \<or> suffix = '';'') \<longrightarrow>
      (\<exists>fuel n. parseNewick fuel (render t @ suffix) = Some n))
   \<and> parseNewick (Suc fuel) [] = Some (Node None (Some ''internal'') (Some zero))
   \<and> (rows raw \<noteq> [] \<longrightarrow>
      loadDashboard fuel [] raw st = Some (Failed (Error ''Tree data is empty''), st))"
proof -
  have "rows raw \<noteq> [] \<longrightarrow>
      loadDashboard fuel [] raw st = Some (Failed (Error ''Tree data is empty''), st)"
    by (simp add: loadDashboard_def)
  with parseNewick_wellFormed [of t suffix] parseNewick_empty [of fuel]
  show ?thesis by blast
qed

theorem parseNewick_returns_a_node_witness:
  "(\<exists>fuel n. parseNewick fuel ''(A,B)C;'' = Some n)
   \<and> (\<exists>fuel n. parseNewick fuel ''(,)'' = Some n)
   \<and> map_option fst (loadDashboard 0 [] \<lparr>columns = [''accession''], rows = [[''accession'' \<mapsto> ''A'']]\<rparr>
         \<lparr>allSequences = [], sequences = [], papers = [], tree = None, descriptors = [],
          descriptorInfo = Map.empty\<rparr>) = Some (Failed (Error ''Tree data is empty''))
   \<and> parseNewick 4 ''(A,B)C;'' = Some (Node (Some [Node None (Some ''A'') (Some zero),
        Node None (Some ''B'') (Some zero)]) (Some ''C'') None)"
proof -
  have wf: "wellFormed (Group [Leaf ''A'', Leaf ''B''] ''C'') \<and> ('';'' = [] \<or> '';'' = '';'')"
    by (simp add: labelOk_def isStop_def)
  have r: "render (Group [Leaf ''A'', Leaf ''B''] ''C'') @ '';'' = ''(A,B)C;''"
    by simp
  have wf2: "wellFormed (Group [Leaf [], Leaf []] []) \<and> ([] = [] \<or> [] = '';'')"
    by (simp add: labelOk_def)
  have r2: "render (Group [Leaf [], Leaf []] []) @ [] = ''(,)''"
    by simp
  have ex: "parseNewick 4 ''(A,B)C;'' = Some (Node (Some [Node None (Some ''A'') (Some zero),
        Node None (Some ''B'') (Some zero)]) (Some ''C'') None)"
    by code_simp
  have nr: "rows \<lparr>columns = [''accession''], rows = [[''accession'' \<mapsto> ''A'']]\<rparr> \<noteq> []"
    by simp
  from parseNewick_returns_a_node [of "Group [Leaf ''A'', Leaf ''B''] ''C''" "'';''" 0
      "\<lparr>columns = [''accession''], rows = [[''accession'' \<mapsto> ''A'']]\<rparr>"
      "\<lparr>allSequences = [], sequences = [], papers = [], tree = None, descriptors = [],
          descriptorInfo = Map.empty\<rparr>"]
    wf nr
  have a: "\<exists>fuel n. parseNewick fuel ''(A,B)C;'' = Some n"
    and c: "loadDashboard 0 [] \<lparr>columns = [''accession''], rows = [[''accession'' \<mapsto> ''A'']]\<rparr>
         \<lparr>allSequences = [], sequences = [], papers = [], tree = None, descriptors = [],
          descriptorInfo = Map.empty\<rparr>
        = Some (Failed (Error ''Tree data is empty''),
         \<lparr>allSequences = [], sequences = [], papers = [], tree = None, descriptors = [],
          descriptorInfo = Map.empty\<rparr>)"
    unfolding r by blast+
  from parseNewick_returns_a_node [of "Group [Leaf [], Leaf []] []" "[]"] wf2
  have b: "\<exists>fuel n. parseNewick fuel ''(,)'' = Some n"
    unfolding r2 by blast
  from c have "map_option fst (loadDashboard 0 [] \<lparr>columns = [''accession''], rows = [[''accession'' \<mapsto> ''A'']]\<rparr>
         \<lparr>allSequences = [], sequences = [], papers = [], tree = None, descriptors = [],
          descriptorInfo = Map.empty\<rparr>) = Some (Failed (Error ''Tree data is empty''))"
    by simp
  with a b ex show ?thesis
    by blast
qed

text \<open>
  Claim C3 as stated fails on the empty string: the parser returns a tree node for it,
  not an error.
\<close>

theorem parseNewick_empty_string_yields_node:
  "parseNewick (Suc 0) [] = Some (Node None (Some ''internal'') (Some zero))"
  by (rule parseNewick_empty)

subsection \<open>Branch lengths\<close>

lemma scan_no_colon:
  "CHR '':'' \<notin> set newick \<Longrightarrow> readingName \<Longrightarrow>
   fst (snd (scanNameAndLength newick pos name lengthStr readingName)) = lengthStr"
proof (induction newick pos name lengthStr readingName rule: scanNameAndLength.induct)
  case (1 newick pos name lengthStr readingName)
  show ?case
  proof (cases "pos < length newick \<and> newick ! pos \<noteq> CHR '','' \<and> newick ! pos \<noteq> CHR '')''
         \<and> newick ! pos \<noteq> CHR '';''")
    case True
    then have "newick ! pos \<in> set newick" by simp
    with "1.prems" have nc: "newick ! pos \<noteq> CHR '':''" by metis
    from True nc "1.prems" "1.IH"(2) show ?thesis
      by (subst scanNameAndLength.simps) simp
  next
    case False
    then show ?thesis
      by (subst scanNameAndLength.simps) auto
  qed
qed

lemma parseFloatStr_empty: "parseFloatStr [] = NaN"
  by code_simp

lemma parseNameAndLength_no_colon:
  "CHR '':'' \<notin> set newick \<Longrightarrow> snd (fst (parseNameAndLength newick pos)) = zero"
  using scan_no_colon [of newick True pos "[]" "[]"]
  by (auto simp: parseNameAndLength_def parseFloatStr_empty split: prod.splits)

lemma parseNameAndLength_length:
  "snd (fst (parseNameAndLength newick pos)) = zero \<or> truthyNum (snd (fst (parseNameAndLength newick pos)))"
  by (auto simp: parseNameAndLength_def split: prod.splits)

lemma truthyNum_zero: "\<not> truthyNum zero"
  by (simp add: zero_def)

lemma parse_lengthsDefault:
  "(CHR '':'' \<notin> set newick \<longrightarrow> parseSubtree fuel newick pos = Some (t, p) \<longrightarrow> lengthsDefault t)
  \<and> (CHR '':'' \<notin> set newick \<longrightarrow> parseChildren fuel newick pos cs = Some (cs', p) \<longrightarrow>
       list_all lengthsDefault cs \<longrightarrow> list_all lengthsDefault cs')"
proof (induction fuel arbitrary: pos t p cs cs')
  case 0
  show ?case by simp
next
  case (Suc fuel)
  show ?case
  proof (intro conjI impI)
    assume nc: "CHR '':'' \<notin> set newick" and ps: "parseSubtree (Suc fuel) newick pos = Some (t, p)"
    show "lengthsDefault t"
    proof (cases "charAt newick pos = Some (CHR ''('')")
      case True
      with ps obtain children pos1 where
        pc: "parseChildren fuel newick (pos + 1) [] = Some (children, pos1)"
        by (auto split: option.splits)
      from Suc.IH nc pc have "list_all lengthsDefault children" by fastforce
      with True ps pc parseNameAndLength_no_colon [OF nc, of "pos1 + 1"] show ?thesis
        by (auto split: prod.splits simp: truthyNum_zero)
    next
      case False
      with ps parseNameAndLength_no_colon [OF nc, of pos] show ?thesis
        by (auto split: prod.splits)
    qed
  next
    assume nc: "CHR '':'' \<notin> set newick"
      and pc: "parseChildren (Suc fuel) newick pos cs = Some (cs', p)"
      and cs: "list_all lengthsDefault cs"
    show "list_all lengthsDefault cs'"
    proof (cases "charAt newick pos \<noteq> Some (CHR '')'')")
      case True
      with pc obtain child pos1 where
        st: "parseSubtree fuel newick pos = Some (child, pos1)"
        and rest: "parseChildren fuel newick (if charAt newick pos1 = Some (CHR '','') then pos1 + 1 else pos1)
               (cs @ [child]) = Some (cs', p)"
        by (auto split: option.splits)
      from Suc.IH nc st have "lengthsDefault child" by blast
      with cs have "list_all lengthsDefault (cs @ [child])" by simp
      with Suc.IH nc rest show ?thesis by blast
    next
      case False
      with pc cs show ?thesis by auto
    qed
  qed
qed

lemma parse_lengthsStored:
  "(parseSubtree fuel newick pos = Some (t, p) \<longrightarrow> lengthsStored t)
  \<and> (parseChildren fuel newick pos cs = Some (cs', p) \<longrightarrow>
       list_all lengthsStored cs \<longrightarrow> list_all lengthsStored cs')"
proof (induction fuel arbitrary: pos t p cs cs')
  case 0
  show ?case by simp
next
  case (Suc fuel)
  show ?case
  proof (intro conjI impI)
    assume ps: "parseSubtree (Suc fuel) newick pos = Some (t, p)"
    show "lengthsStored t"
    proof (cases "charAt newick pos = Some (CHR ''('')")
      case True
      with ps obtain children pos1 where
        pc: "parseChildren fuel newick (pos + 1) [] = Some (children, pos1)"
        by (auto split: option.splits)
      from Suc.IH pc have "list_all lengthsStored children" by fastforce
      with True ps pc show ?thesis
        by (auto split: prod.splits)
    next
      case False
      with ps parseNameAndLength_length [of newick pos] show ?thesis
        by (auto split: prod.splits)
    qed
  next
    assume pc: "parseChildren (Suc fuel) newick pos cs = Some (cs', p)"
      and cs: "list_all lengthsStored cs"
    show "list_all lengthsStored cs'"
    proof (cases "charAt newick pos \<noteq> Some (CHR '')'')")
      case True
      with pc obtain child pos1 where
        st: "parseSubtree fuel newick pos = Some (child, pos1)"
        and rest: "parseChildren fuel newick (if charAt newick pos1 = Some (CHR '','') then pos1 + 1 else pos1)
               (cs @ [child]) = Some (cs', p)"
        by (auto split: option.splits)
      from Suc.IH st have "lengthsStored child" by blast
      with cs have "list_all lengthsStored (cs @ [child])" by simp
      with Suc.IH rest show ?thesis by blast
    next
      case False
      with pc cs show ?thesis by auto
    qed
  qed
qed

text \<open>
  Claim C8, as the code has it. On every input the parser stores a length, 0 or a truthy
  number, on each leaf, and stores a length on a group node only when it is truthy
  (\<^verbatim>\<open>if (length) node.length = length\<close>). So for an input that specifies no branch
  length, every leaf has length 0 and every group node, the root included, has no
  \<^verbatim>\<open>length\<close> field. \<^verbatim>\<open>parseNameAndLength\<close> itself returns the length 0 whenever the text
  after the colon does not parse as a number.
\<close>

theorem parseNewick_branch_lengths:
  "(parseNewick fuel newick = Some t \<longrightarrow>
      lengthsStored t \<and> (CHR '':'' \<notin> set newick \<longrightarrow> lengthsDefault t))
   \<and> (parseFloatStr (fst (snd (scanNameAndLength newick pos [] [] True))) = NaN \<longrightarrow>
      snd (fst (parseNameAndLength newick pos)) = zero)"
proof (intro conjI impI)
  assume "parseNewick fuel newick = Some t"
  then obtain p where ps: "parseSubtree fuel newick 0 = Some (t, p)"
    by (auto simp: parseNewick_def)
  from ps parse_lengthsStored [of fuel newick 0 t p] show "lengthsStored t"
    by blast
  assume "CHR '':'' \<notin> set newick"
  with ps parse_lengthsDefault [of newick fuel 0 t p] show "lengthsDefault t"
    by blast
next
  assume "parseFloatStr (fst (snd (scanNameAndLength newick pos [] [] True))) = NaN"
  then show "snd (fst (parseNameAndLength newick pos)) = zero"
    by (auto simp: parseNameAndLength_def split: prod.splits)
qed

theorem parseNewick_branch_lengths_witness:
  "parseNewick 4 ''(A,B)C;'' = Some (Node (Some [Node None (Some ''A'') (Some zero),
        Node None (Some ''B'') (Some zero)]) (Some ''C'') None)
   \<and> lengthsStored (Node (Some [Node None (Some ''A'') (Some zero),
        Node None (Some ''B'') (Some zero)]) (Some ''C'') None)
   \<and> lengthsDefault (Node (Some [Node None (Some ''A'') (Some zero),
        Node None (Some ''B'') (Some zero)]) (Some ''C'') None)
   \<and> snd (fst (parseNameAndLength ''A:x'' 0)) = zero"
proof -
  have ex: "parseNewick 4 ''(A,B)C;'' = Some (Node (Some [Node None (Some ''A'') (Some zero),
        Node None (Some ''B'') (Some zero)]) (Some ''C'') None)"
    by code_simp
  have nc: "CHR '':'' \<notin> set ''(A,B)C;''"
    by simp
  have un: "parseFloatStr (fst (snd (scanNameAndLength ''A:x'' 0 [] [] True))) = NaN"
    by code_simp
  from parseNewick_branch_lengths [THEN conjunct1, of 4 "''(A,B)C;''"] ex nc
  have a: "lengthsStored (Node (Some [Node None (Some ''A'') (Some zero),
        Node None (Some ''B'') (Some zero)]) (Some ''C'') None)"
    and b: "lengthsDefault (Node (Some [Node None (Some ''A'') (Some zero),
        Node None (Some ''B'') (Some zero)]) (Some ''C'') None)"
    by blast+
  from parseNewick_branch_lengths [THEN conjunct2, of "''A:x''" 0] un
  have c: "snd (fst (parseNameAndLength ''A:x'' 0)) = zero"
    by blast
  from ex a b c show ?thesis
    by blast
qed

text \<open>
  Claim C8 as stated fails at its own example: for \<^verbatim>\<open>(A,B)C;\<close> the root has no
  \<^verbatim>\<open>length\<close> field, so its branch length is \<^verbatim>\<open>undefined\<close>, not 0.
\<close>

theorem parseNewick_root_length_absent:
  "map_option node_length (parseNewick 4 ''(A,B)C;'') = Some None"
  by code_simp

section \<open>Properties of the classifier\<close>

subsection \<open>Distinct values\<close>

lemma set_unique: "set (unique xs) = set xs"
  by (induction xs rule: unique.induct) auto

lemma distinct_unique: "distinct (unique xs)"
  by (induction xs rule: unique.induct) (auto simp: set_unique)


subsection \<open>The order on numbers and the extent\<close>

lemma fin_less_val: "fin_less m1 e1 m2 e2 \<longleftrightarrow> fin_val m1 e1 < fin_val m2 e2"
proof (cases "e1 \<le> e2")
  case True
  have "fin_val m2 e2 = of_int m2 * (10 powi (e2 - e1) * 10 powi e1)"
    unfolding fin_val_def by (simp flip: power_int_add)
  also have "\<dots> = of_int (m2 * 10 ^ nat (e2 - e1)) * 10 powi e1"
    using True by (simp add: power_int_def)
  finally have eq: "fin_val m2 e2 = of_int (m2 * 10 ^ nat (e2 - e1)) * 10 powi e1" .
  have "fin_val m1 e1 < fin_val m2 e2 \<longleftrightarrow>
      (of_int m1 :: real) * 10 powi e1 < of_int (m2 * 10 ^ nat (e2 - e1)) * 10 powi e1"
    unfolding eq by (simp only: fin_val_def)
  also have "\<dots> \<longleftrightarrow> (of_int m1 :: real) < of_int (m2 * 10 ^ nat (e2 - e1))"
    by (rule mult_less_cancel_right_pos) simp
  also have "\<dots> \<longleftrightarrow> m1 < m2 * 10 ^ nat (e2 - e1)"
    by (rule of_int_less_iff)
  finally show ?thesis using True by (simp add: fin_less_def)
next
  case False
  have "fin_val m1 e1 = of_int m1 * (10 powi (e1 - e2) * 10 powi e2)"
    unfolding fin_val_def by (simp flip: power_int_add)
  also have "\<dots> = of_int (m1 * 10 ^ nat (e1 - e2)) * 10 powi e2"
    using False by (simp add: power_int_def)
  finally have eq: "fin_val m1 e1 = of_int (m1 * 10 ^ nat (e1 - e2)) * 10 powi e2" .
  have "fin_val m1 e1 < fin_val m2 e2 \<longleftrightarrow>
      (of_int (m1 * 10 ^ nat (e1 - e2)) :: real) * 10 powi e2 < of_int m2 * 10 powi e2"
    unfolding eq by (simp only: fin_val_def)
  also have "\<dots> \<longleftrightarrow> (of_int (m1 * 10 ^ nat (e1 - e2)) :: real) < of_int m2"
    by (rule mult_less_cancel_right_pos) simp
  also have "\<dots> \<longleftrightarrow> m1 * 10 ^ nat (e1 - e2) < m2"
    by (rule of_int_less_iff)
  finally show ?thesis using False by (simp add: fin_less_def)
qed

lemma num_less_irrefl: "\<not> num_less a a"
  by (cases a) (simp_all add: fin_less_val)

lemma num_not_less_trans:
  "a \<noteq> NaN \<Longrightarrow> b \<noteq> NaN \<Longrightarrow> c \<noteq> NaN \<Longrightarrow> \<not> num_less b a \<Longrightarrow> \<not> num_less c b \<Longrightarrow> \<not> num_less c a"
  by (cases a; cases b; cases c) (simp_all add: fin_less_val)

lemma num_less_not_less:
  "num_less a b \<Longrightarrow> \<not> num_less b a"
  by (cases a; cases b) (simp_all add: fin_less_val)

lemma num_less_not_NaN: "num_less a b \<Longrightarrow> a \<noteq> NaN \<and> b \<noteq> NaN"
  by (cases a; cases b) simp_all

lemma extent_foldl:
  "case foldl extentStep None vs of
     None \<Rightarrow> set vs - {NaN} = {}
   | Some (mn, mx) \<Rightarrow> isExtent (set vs - {NaN}) mn mx"
proof (induction vs rule: rev_induct)
  case Nil
  show ?case by simp
next
  case (snoc v vs)
  show ?case
  proof (cases "foldl extentStep None vs")
    case None
    with snoc show ?thesis
      by (auto simp: isExtent_def num_less_irrefl)
  next
    case (Some p)
    obtain mn mx where p: "p = (mn, mx)" by (cases p)
    with snoc Some have inv: "isExtent (set vs - {NaN}) mn mx" by simp
    then have nn: "mn \<noteq> NaN" "mx \<noteq> NaN"
      by (auto simp: isExtent_def)
    show ?thesis
    proof (cases "v = NaN")
      case True
      with Some p inv show ?thesis
        by (cases mn; cases mx) (auto simp: isExtent_def)
    next
      case False
      have "isExtent (insert v (set vs - {NaN}))
          (if num_less v mn then v else mn) (if num_less mx v then v else mx)"
        unfolding isExtent_def
        using inv nn False
        by (auto simp: isExtent_def num_less_irrefl dest: num_not_less_trans num_less_not_less
            intro: num_not_less_trans [of _ mn v] num_not_less_trans [of v mx])
      moreover have "set (vs @ [v]) - {NaN} = insert v (set vs - {NaN})"
        using False by auto
      ultimately show ?thesis using Some p by simp
    qed
  qed
qed


subsection \<open>The classifier, column by column\<close>

lemma analyzeColumn_type:
  "type (analyzeColumn col) = numerical \<longleftrightarrow>
     real (length (filter isNumeric (filter nonMissing col))) / real (length (filter nonMissing col)) > 0.8
     \<and> length (unique (filter nonMissing col)) > 6"
  by (auto simp: analyzeColumn_def Let_def)


lemma analyzeColumn_domain_numerical:
  "type (analyzeColumn col) = numerical \<Longrightarrow>
     domain (analyzeColumn col) = extent (map toNumber (filter nonMissing col))"
  by (auto simp: analyzeColumn_def Let_def split: if_splits)

lemma analyzeColumn_domain_categorical:
  "type (analyzeColumn col) = categorical \<Longrightarrow>
     domain (analyzeColumn col) = jsSort (unique (filter nonMissing col))"
  by (auto simp: analyzeColumn_def Let_def jsSort_def split: if_splits)

lemma isNumeric_not_NaN: "isNumeric v \<Longrightarrow> toNumber v \<noteq> NaN"
  by (auto simp: isNumeric_def isFinite_def split: jsnum.splits)

lemma numerical_has_number:
  assumes "type (analyzeColumn col) = numerical"
  shows "\<exists>v \<in> set (filter nonMissing col). toNumber v \<noteq> NaN"
proof -
  from assms have "real (length (filter isNumeric (filter nonMissing col))) / real (length (filter nonMissing col)) > 0.8"
    by (simp add: analyzeColumn_type)
  then have "filter isNumeric (filter nonMissing col) \<noteq> []"
    by auto
  then obtain v where "v \<in> set (filter isNumeric (filter nonMissing col))"
    by (meson last_in_set)
  then show ?thesis
    by (auto dest: isNumeric_not_NaN)
qed

lemma jsSort_no_undefined:
  "Undefined \<notin> set xs \<Longrightarrow> jsSort xs = sort_key toString xs"
proof -
  assume a: "Undefined \<notin> set xs"
  then have "filter (\<lambda>v. v \<noteq> Undefined) xs = xs"
    by (induction xs) auto
  moreover from a have "filter (\<lambda>v. v = Undefined) xs = []"
    by (induction xs) auto
  ultimately show ?thesis by (simp add: jsSort_def)
qed

lemma nonMissing_not_undefined: "Undefined \<notin> set (unique (filter nonMissing col))"
  by (auto simp: set_unique nonMissing_def)

lemma analyzeKey_frame:
  "analyzeKey st key = st\<lparr>descriptorInfo := descriptorInfo (analyzeKey st key)\<rparr>"
  by (simp add: analyzeKey_def)

lemma columnOf_descriptorInfo_update [simp]:
  "columnOf (st\<lparr>descriptorInfo := d\<rparr>) key = columnOf st key"
  by (simp add: columnOf_def)

lemma analyzeDescriptors_fold_frame:
  "foldl analyzeKey st ks = st\<lparr>descriptorInfo := descriptorInfo (foldl analyzeKey st ks)\<rparr>"
proof (induction ks arbitrary: st)
  case Nil
  show ?case by simp
next
  case (Cons key ks)
  from Cons.IH [of "analyzeKey st key"] show ?case
    by (simp add: analyzeKey_def)
qed

lemma analyzeDescriptors_fold:
  "descriptorInfo (foldl analyzeKey st ks) k
     = (if k \<in> set ks then Some (analyzeColumn (columnOf st k)) else descriptorInfo st k)"
proof (induction ks arbitrary: st)
  case Nil
  show ?case by simp
next
  case (Cons key ks)
  from Cons.IH [of "analyzeKey st key"] show ?case
    by (simp add: analyzeKey_def)
qed

lemma analyzeDescriptors_frame:
  "analyzeDescriptors st = st\<lparr>descriptorInfo := descriptorInfo (analyzeDescriptors st)\<rparr>"
  unfolding analyzeDescriptors_def by (rule analyzeDescriptors_fold_frame)

lemma analyzeDescriptors_info:
  "descriptorInfo (analyzeDescriptors st) key =
     (if key \<in> set (descriptors st) then Some (analyzeColumn (columnOf st key)) else descriptorInfo st key)"
  by (simp add: analyzeDescriptors_def analyzeDescriptors_fold)



text \<open>
  Claim C4, as the code has it. The domain of a column classified numerical is the pair
  of the minimum and the maximum of the numbers \<^verbatim>\<open>+v\<close> of its non-missing values \<open>v\<close>
  (those that are not \<open>NaN\<close>): missing entries are filtered out before. The column
  \<^verbatim>\<open>["3","NA","1","",5]\<close> has three non-missing values with extent \<open>[1, 5]\<close>, but with three
  distinct values it is classified categorical, and its domain is the sorted list of
  its values.
\<close>

theorem numerical_domain_is_extent:
  assumes "type (analyzeColumn col) = numerical"
  shows "\<exists>lo hi. domain (analyzeColumn col) = [Num lo, Num hi]
     \<and> isExtent (toNumber ` {v \<in> set col. nonMissing v} - {NaN}) lo hi"
proof -
  let ?vs = "map toNumber (filter nonMissing col)"
  have P: "toNumber ` {v \<in> set col. nonMissing v} - {NaN} = set ?vs - {NaN}" by auto
  from numerical_has_number [OF assms] have ne: "set ?vs - {NaN} \<noteq> {}" by auto
  from extent_foldl [of ?vs] ne obtain mn mx where
    f: "foldl extentStep None ?vs = Some (mn, mx)" and e: "isExtent (set ?vs - {NaN}) mn mx"
    by (cases "foldl extentStep None ?vs") auto
  from f have "extent ?vs = [Num mn, Num mx]"
    by (simp add: extent_def)
  with e analyzeColumn_domain_numerical [OF assms] show ?thesis
    unfolding P by auto
qed

theorem numerical_domain_is_extent_witness:
  "(\<exists>lo hi. domain (analyzeColumn (map Str [''1'', ''2'', ''3'', ''4'', ''5'', ''6'', ''7''])) = [Num lo, Num hi]
       \<and> isExtent (toNumber ` {v \<in> set (map Str [''1'', ''2'', ''3'', ''4'', ''5'', ''6'', ''7'']). nonMissing v} - {NaN}) lo hi)
   \<and> domain (analyzeColumn (map Str [''1'', ''2'', ''3'', ''4'', ''5'', ''6'', ''7''])) = [Num (Fin 1 0), Num (Fin 7 0)]
   \<and> extent (map toNumber (filter nonMissing [Str ''3'', Str ''NA'', Str ''1'', Str [], Num (Fin 5 0)]))
       = [Num (Fin 1 0), Num (Fin 5 0)]"
proof -
  let ?c7 = "map Str [''1'', ''2'', ''3'', ''4'', ''5'', ''6'', ''7'']"
  have t: "type (analyzeColumn ?c7) = numerical" by code_simp
  have d: "domain (analyzeColumn ?c7) = [Num (Fin 1 0), Num (Fin 7 0)]" by code_simp
  have e: "extent (map toNumber (filter nonMissing [Str ''3'', Str ''NA'', Str ''1'', Str [], Num (Fin 5 0)]))
       = [Num (Fin 1 0), Num (Fin 5 0)]" by code_simp
  from numerical_domain_is_extent [OF t] d e show ?thesis
    by blast
qed

text \<open>
  Claim C4 as stated fails at its example: the domain of the column
  \<^verbatim>\<open>["3","NA","1","",5]\<close> is not \<open>[1, 5]\<close>; the column is categorical, with domain
  \<^verbatim>\<open>["1","3",5]\<close>.
\<close>

theorem example_column_is_categorical:
  "analyzeColumn [Str ''3'', Str ''NA'', Str ''1'', Str [], Num (Fin 5 0)]
     = \<lparr>type = categorical, domain = [Str ''1'', Str ''3'', Num (Fin 5 0)]\<rparr>"
  by code_simp

text \<open>
  Claim C5. The domain of a column classified categorical holds each distinct
  non-missing value once, ordered by the strings of the values under the lexicographic
  order on strings, not by their numeric value: \<^verbatim>\<open>"10"\<close> comes before \<^verbatim>\<open>"2"\<close>, and so
  does the number 10 before the number 2.
\<close>

theorem categorical_domain_sorted_by_string:
  assumes "type (analyzeColumn col) = categorical"
  shows "sorted (map toString (domain (analyzeColumn col)))
     \<and> distinct (domain (analyzeColumn col))
     \<and> set (domain (analyzeColumn col)) = {v \<in> set col. nonMissing v}"
proof -
  have d: "domain (analyzeColumn col) = sort_key toString (unique (filter nonMissing col))"
    using analyzeColumn_domain_categorical [OF assms] jsSort_no_undefined [OF nonMissing_not_undefined]
    by simp
  show ?thesis
    unfolding d by (auto simp: set_unique distinct_unique sorted_sort_key)
qed


theorem categorical_domain_sorted_by_string_witness:
  "sorted (map toString (domain (analyzeColumn [Str ''2'', Str ''10''])))
   \<and> domain (analyzeColumn [Str ''2'', Str ''10'']) = [Str ''10'', Str ''2'']
   \<and> domain (analyzeColumn [Num (Fin 2 0), Num (Fin 1 1)]) = [Num (Fin 1 1), Num (Fin 2 0)]
   \<and> toString (Num (Fin 1 1)) = ''10''
   \<and> ''10'' < ''2''"
proof -
  have t: "type (analyzeColumn [Str ''2'', Str ''10'']) = categorical" by code_simp
  have d: "domain (analyzeColumn [Str ''2'', Str ''10'']) = [Str ''10'', Str ''2'']" by code_simp
  have n: "domain (analyzeColumn [Num (Fin 2 0), Num (Fin 1 1)]) = [Num (Fin 1 1), Num (Fin 2 0)]" by code_simp
  have s: "toString (Num (Fin 1 1)) = ''10''" by code_simp
  have l: "''10'' < ''2''" by code_simp
  from categorical_domain_sorted_by_string [OF t] d n s l show ?thesis
    by blast
qed

section \<open>Properties of the ingest coercion\<close>

lemma upperChar_eq_upper:
  assumes "CHR ''A'' \<le> d" "d \<le> CHR ''Z''" "upperChar c = d"
  shows "c = d \<or> c = char_of (of_char d + (32::nat))"
proof (cases "CHR ''a'' \<le> c \<and> c \<le> CHR ''z''")
  case False
  with assms show ?thesis by (simp add: upperChar_def)
next
  case True
  then have r: "97 \<le> (of_char c :: nat)" "(of_char c :: nat) \<le> 122"
    by (simp_all add: less_eq_char_def)
  from True assms have "char_of (of_char c - (32::nat)) = d"
    by (simp add: upperChar_def)
  then have "(of_char (char_of (of_char c - (32::nat)) :: char) :: nat) = of_char d"
    by simp
  then have "(of_char c - (32::nat)) mod 256 = of_char d"
    by (simp add: of_char_of)
  with r have "(of_char c :: nat) = of_char d + 32"
    by simp
  then have "char_of (of_char c :: nat) = (char_of (of_char d + (32::nat)) :: char)"
    by simp
  then show ?thesis by simp
qed

lemma upperChar_N: "upperChar c = CHR ''N'' \<Longrightarrow> c = CHR ''N'' \<or> c = CHR ''n''"
proof -
  have "char_of (110::nat) = CHR ''n''" by code_simp
  then show "upperChar c = CHR ''N'' \<Longrightarrow> c = CHR ''N'' \<or> c = CHR ''n''"
    using upperChar_eq_upper [of "CHR ''N''" c] by (simp add: less_eq_char_def)
qed

lemma upperChar_A: "upperChar c = CHR ''A'' \<Longrightarrow> c = CHR ''A'' \<or> c = CHR ''a''"
proof -
  have "char_of (97::nat) = CHR ''a''" by code_simp
  then show "upperChar c = CHR ''A'' \<Longrightarrow> c = CHR ''A'' \<or> c = CHR ''a''"
    using upperChar_eq_upper [of "CHR ''A''" c] by (simp add: less_eq_char_def)
qed

lemma toUpperCase_NA:
  "toUpperCase v = ''NA'' \<Longrightarrow> v = ''NA'' \<or> v = ''Na'' \<or> v = ''nA'' \<or> v = ''na''"
proof -
  assume a: "toUpperCase v = ''NA''"
  then obtain c d where v: "v = [c, d]" and "upperChar c = CHR ''N''" "upperChar d = CHR ''A''"
    by (auto simp: toUpperCase_def map_eq_Cons_conv)
  with upperChar_N [of c] upperChar_A [of d] show ?thesis by auto
qed

lemma StringToNumber_NA:
  "toUpperCase v = ''NA'' \<Longrightarrow> StringToNumber v = NaN"
proof -
  have "StringToNumber ''NA'' = NaN" "StringToNumber ''Na'' = NaN"
       "StringToNumber ''nA'' = NaN" "StringToNumber ''na'' = NaN"
    by code_simp+
  then show "toUpperCase v = ''NA'' \<Longrightarrow> StringToNumber v = NaN"
    using toUpperCase_NA [of v] by auto
qed

text \<open>
  Claim C9, as the code has it. A cell \<open>v\<close> of a descriptor column that is empty or holds a
  character other than white space is stored as the number \<^verbatim>\<open>+v\<close> exactly when \<open>v\<close> is not
  the empty string and \<^verbatim>\<open>+v\<close> is not \<open>NaN\<close>, and as the string \<open>v\<close> itself otherwise. The
  empty string and \<^verbatim>\<open>NA\<close> in any letter case are kept as these strings: ingest has no
  missing marker, and never turns them into zero. They are the values that the filter of
  \<^verbatim>\<open>analyzeDescriptors\<close> drops as missing. Nothing is stated about a cell of white space
  only.
\<close>

theorem coerce_cases:
  "v = [] \<or> trim v \<noteq> [] \<longrightarrow>
     (coerce v = Num n \<longleftrightarrow> v \<noteq> [] \<and> StringToNumber v = n \<and> n \<noteq> NaN)
   \<and> (coerce v = Str s \<longleftrightarrow> s = v \<and> (v = [] \<or> StringToNumber v = NaN))
   \<and> (v = [] \<or> toUpperCase v = ''NA'' \<longrightarrow> coerce v = Str v \<and> \<not> nonMissing (coerce v))
   \<and> coerce v \<noteq> Undefined \<and> coerce v \<noteq> Null"
proof (intro impI conjI)
  show "coerce v = Num n \<longleftrightarrow> v \<noteq> [] \<and> StringToNumber v = n \<and> n \<noteq> NaN"
    by (auto simp: coerce_def Let_def)
  show "coerce v = Str s \<longleftrightarrow> s = v \<and> (v = [] \<or> StringToNumber v = NaN)"
    by (auto simp: coerce_def Let_def)
  show "coerce v = Str v" if a: "v = [] \<or> toUpperCase v = ''NA''"
    using a StringToNumber_NA [of v] by (auto simp: coerce_def Let_def)
  show "\<not> nonMissing (coerce v)" if a: "v = [] \<or> toUpperCase v = ''NA''"
  proof -
    from a StringToNumber_NA [of v] have c: "coerce v = Str v"
      by (auto simp: coerce_def Let_def)
    from a have "\<not> nonMissing (Str v)"
      by (auto simp: nonMissing_def trim_def)
    with c show ?thesis
      by simp
  qed
  show "coerce v \<noteq> Undefined" "coerce v \<noteq> Null"
    by (simp_all add: coerce_def Let_def)
qed

theorem coerce_cases_witness:
  "coerce ''NA'' = Str ''NA'' \<and> coerce ''na'' = Str ''na'' \<and> coerce [] = Str []
   \<and> coerce ''12.5'' = Num (Fin 125 (- 1)) \<and> coerce ''abc'' = Str ''abc''"
proof -
  note number = coerce_cases [THEN mp, THEN conjunct1]
  note textual = coerce_cases [THEN mp, THEN conjunct2, THEN conjunct1]
  note missing = coerce_cases [THEN mp, THEN conjunct2, THEN conjunct2, THEN conjunct1]
  have t1: "trim ''NA'' \<noteq> []" by code_simp
  have t2: "trim ''na'' \<noteq> []" by code_simp
  have t4: "trim ''12.5'' \<noteq> []" by code_simp
  have t5: "trim ''abc'' \<noteq> []" by code_simp
  have u1: "toUpperCase ''NA'' = ''NA''" by code_simp
  have u2: "toUpperCase ''na'' = ''NA''" by code_simp
  have n1: "StringToNumber ''12.5'' = Fin 125 (- 1)" by code_simp
  have n2: "StringToNumber ''abc'' = NaN" by code_simp
  have 1: "coerce ''NA'' = Str ''NA''" using missing [of "''NA''"] t1 u1 by simp
  have 2: "coerce ''na'' = Str ''na''" using missing [of "''na''"] t2 u2 by simp
  have 3: "coerce [] = Str []" using missing [of "[]"] by simp
  have 4: "coerce ''12.5'' = Num (Fin 125 (- 1))"
    using number [of "''12.5''" "Fin 125 (- 1)"] t4 n1 by simp
  have 5: "coerce ''abc'' = Str ''abc''"
    using textual [of "''abc''" "''abc''"] t5 n2 by simp
  from 1 2 3 4 5 show ?thesis by simp
qed

text \<open>
  Claim C9 as stated fails: \<^verbatim>\<open>NA\<close>, \<^verbatim>\<open>na\<close> and the empty string are kept as ordinary
  strings, not normalised to a missing marker; \<^verbatim>\<open>1.0\<close> is stored as the number 1 although
  it does not print back to \<^verbatim>\<open>1.0\<close>.
\<close>

theorem coerce_keeps_NA_and_skips_round_trip:
  "coerce ''NA'' = Str ''NA'' \<and> coerce ''na'' = Str ''na'' \<and> coerce [] = Str []
   \<and> coerce ''1.0'' = Num (Fin 1 0) \<and> toString (coerce ''1.0'') = ''1''"
proof -
  have 1: "coerce ''NA'' = Str ''NA''" by code_simp
  have 2: "coerce ''na'' = Str ''na''" by code_simp
  have 3: "coerce [] = Str []" by code_simp
  have 4: "coerce ''1.0'' = Num (Fin 1 0)" by code_simp
  have 5: "toString (coerce ''1.0'') = ''1''" by code_simp
  from 1 2 3 4 5 show ?thesis by simp
qed

section \<open>Properties of the tree colouring\<close>

subsection \<open>The first pass is the loop over the leaves\<close>






subsection \<open>Leaf colours\<close>



lemma indexOf_less: "indexOf xs x = Some i \<Longrightarrow> i < length xs"
  by (induction xs arbitrary: i) (auto split: if_splits)




subsection \<open>Colours of the nodes with children\<close>




subsection \<open>The coloured hierarchy has the nodes of the parsed tree\<close>



lemma data_hsum [simp]: "data (hsum x) = data x"
  by (cases x) simp








lemma data_aggregate [simp]: "data (aggregate x) = data x"
  by (cases x) (simp add: Let_def)



subsection \<open>The colour assignment\<close>







section \<open>Properties of searching and loading\<close>

subsection \<open>What the search box and the classifier assign\<close>

lemma searchInput_case:
  "\<exists>found. snd (case x of Inl e \<Rightarrow> (Some e, st)
       | Inr f \<Rightarrow> (drawTree colorDesc (st\<lparr>sequences := f\<rparr>), st\<lparr>sequences := f\<rparr>)) = st\<lparr>sequences := found\<rparr>"
proof (cases x)
  case (Inl e)
  have "st = st\<lparr>sequences := sequences st\<rparr>" by simp
  then have "\<exists>found. st = st\<lparr>sequences := found\<rparr>" by (rule exI)
  with Inl show ?thesis by simp
next
  case (Inr f)
  then show ?thesis by auto
qed

lemma searchInput_state:
  "\<exists>found. snd (searchInput colorDesc v st) = st\<lparr>sequences := found\<rparr>"
  unfolding searchInput_def Let_def by (rule searchInput_case)

lemma analyzeKey_sequences:
  "analyzeKey (st\<lparr>sequences := found\<rparr>) key = (analyzeKey st key)\<lparr>sequences := found\<rparr>"
  by (simp add: analyzeKey_def columnOf_def)

lemma analyzeDescriptors_fold_sequences:
  "foldl analyzeKey (st\<lparr>sequences := found\<rparr>) ks = (foldl analyzeKey st ks)\<lparr>sequences := found\<rparr>"
  by (induction ks arbitrary: st) (simp_all add: analyzeKey_sequences)

lemma analyzeDescriptors_sequences:
  "analyzeDescriptors (st\<lparr>sequences := found\<rparr>) = (analyzeDescriptors st)\<lparr>sequences := found\<rparr>"
  by (simp add: analyzeDescriptors_def analyzeDescriptors_fold_sequences)

lemma analyzeDescriptors_other_fields:
  "allSequences (analyzeDescriptors st) = allSequences st \<and> descriptors (analyzeDescriptors st) = descriptors st
   \<and> sequences (analyzeDescriptors st) = sequences st \<and> tree (analyzeDescriptors st) = tree st"
proof -
  note e = analyzeDescriptors_frame [of st]
  from arg_cong [OF e, of allSequences] arg_cong [OF e, of descriptors]
    arg_cong [OF e, of sequences] arg_cong [OF e, of tree]
  show ?thesis by simp
qed

lemma loadDashboard_Loaded:
  assumes "loadDashboard fuel newickString raw st0 = Some (Loaded, st)"
  shows "allSequences st = map ingestRow (rows raw)
     \<and> descriptors st = filter (\<lambda>k. k \<noteq> ''pmid'' \<and> k \<noteq> ''accession'') (columns raw)
     \<and> (\<forall>key \<in> set (descriptors st). descriptorInfo st key = Some (analyzeColumn (columnOf st key)))"
proof -
  let ?s4 = "\<lambda>t. st0\<lparr>descriptors := filter (\<lambda>k. k \<noteq> ''pmid'' \<and> k \<noteq> ''accession'') (columns raw),
        allSequences := map ingestRow (rows raw), sequences := map ingestRow (rows raw),
        papers := unique (map (\<lambda>d. d ''pmid'') (rows raw)), tree := Some t\<rparr>"
  have guards: "length (rows raw) \<noteq> 0" "newickString \<noteq> []"
    using assms by (auto simp: loadDashboard_def split: if_splits)
  from assms guards obtain t where t: "parseNewick fuel newickString = Some t"
    by (cases "parseNewick fuel newickString") (simp_all add: loadDashboard_def Let_def)
  from assms guards t have st: "st = analyzeDescriptors (?s4 t)"
    by (simp add: loadDashboard_def Let_def split: option.splits)
  have a: "allSequences st = map ingestRow (rows raw)"
    and d: "descriptors st = filter (\<lambda>k. k \<noteq> ''pmid'' \<and> k \<noteq> ''accession'') (columns raw)"
    unfolding st using analyzeDescriptors_other_fields [of "?s4 t"] by simp_all
  have c: "\<And>key. columnOf st key = columnOf (?s4 t) key"
    using a by (simp add: columnOf_def)
  have "\<And>key. key \<in> set (descriptors st) \<Longrightarrow> descriptorInfo st key = Some (analyzeColumn (columnOf st key))"
  proof -
    fix key assume "key \<in> set (descriptors st)"
    then have "key \<in> set (descriptors (?s4 t))" using d by simp
    then have "descriptorInfo (analyzeDescriptors (?s4 t)) key = Some (analyzeColumn (columnOf (?s4 t) key))"
      by (simp only: analyzeDescriptors_info if_True)
    then show "descriptorInfo st key = Some (analyzeColumn (columnOf st key))"
      unfolding c unfolding st .
  qed
  with a d show ?thesis by blast
qed

text \<open>
  Claim C6. The listener of the search box assigns \<^verbatim>\<open>state.sequences\<close> only: whatever
  text is searched, the descriptor-info table, the full record list and the descriptor
  keys stay as they were. \<^verbatim>\<open>analyzeDescriptors\<close> does not read \<^verbatim>\<open>state.sequences\<close>: run on a
  filtered state it computes what it computes on the unfiltered one. So after a
  successful load and any search, the table still holds, for every descriptor, the type
  and domain computed from the column of all ingested rows.
\<close>

theorem filtering_keeps_classification:
  "descriptorInfo (snd (searchInput colorDesc v st)) = descriptorInfo st
   \<and> allSequences (snd (searchInput colorDesc v st)) = allSequences st
   \<and> descriptors (snd (searchInput colorDesc v st)) = descriptors st
   \<and> analyzeDescriptors (st\<lparr>sequences := found\<rparr>) = (analyzeDescriptors st)\<lparr>sequences := found\<rparr>
   \<and> (loadDashboard fuel newickString raw st0 = Some (Loaded, st) \<and> key \<in> set (descriptors st) \<longrightarrow>
        descriptorInfo (snd (searchInput colorDesc v st)) key
          = Some (analyzeColumn (map (\<lambda>s. descriptorOf s key) (map ingestRow (rows raw)))))"
proof -
  from searchInput_state [of colorDesc v st] obtain fnd where
    s: "snd (searchInput colorDesc v st) = st\<lparr>sequences := fnd\<rparr>"
    by blast
  have 1: "descriptorInfo (snd (searchInput colorDesc v st)) = descriptorInfo st"
    and 2: "allSequences (snd (searchInput colorDesc v st)) = allSequences st"
    and 3: "descriptors (snd (searchInput colorDesc v st)) = descriptors st"
    unfolding s by simp_all
  have 4: "analyzeDescriptors (st\<lparr>sequences := found\<rparr>) = (analyzeDescriptors st)\<lparr>sequences := found\<rparr>"
    by (rule analyzeDescriptors_sequences)
  have 5: "loadDashboard fuel newickString raw st0 = Some (Loaded, st) \<and> key \<in> set (descriptors st) \<longrightarrow>
        descriptorInfo (snd (searchInput colorDesc v st)) key
          = Some (analyzeColumn (map (\<lambda>s. descriptorOf s key) (map ingestRow (rows raw))))"
  proof
    assume a: "loadDashboard fuel newickString raw st0 = Some (Loaded, st) \<and> key \<in> set (descriptors st)"
    from loadDashboard_Loaded [of fuel newickString raw st0 st] a
    have "descriptorInfo st key = Some (analyzeColumn (columnOf st key))"
      and "allSequences st = map ingestRow (rows raw)"
      by blast+
    then show "descriptorInfo (snd (searchInput colorDesc v st)) key
          = Some (analyzeColumn (map (\<lambda>s. descriptorOf s key) (map ingestRow (rows raw))))"
      unfolding 1 by (simp add: columnOf_def)
  qed
  from 1 2 3 4 5 show ?thesis by blast
qed

theorem filtering_keeps_classification_witness:
  "map_option fst (loadDashboard 4 ''(A,B);'' \<lparr>columns = [''accession'', ''pmid'', ''host''],
        rows = [[''accession'' \<mapsto> ''A'', ''pmid'' \<mapsto> ''p1'', ''host'' \<mapsto> ''x''],
                [''accession'' \<mapsto> ''B'', ''pmid'' \<mapsto> ''p2'', ''host'' \<mapsto> ''NA'']]\<rparr> \<lparr>allSequences = [], sequences = [], papers = [], tree = None, descriptors = [],
        descriptorInfo = Map.empty\<rparr>) = Some Loaded
   \<and> map_option (\<lambda>(out, st). map accession (sequences (snd (searchInput ''host'' ''b'' st))))
        (loadDashboard 4 ''(A,B);'' \<lparr>columns = [''accession'', ''pmid'', ''host''],
        rows = [[''accession'' \<mapsto> ''A'', ''pmid'' \<mapsto> ''p1'', ''host'' \<mapsto> ''x''],
                [''accession'' \<mapsto> ''B'', ''pmid'' \<mapsto> ''p2'', ''host'' \<mapsto> ''NA'']]\<rparr> \<lparr>allSequences = [], sequences = [], papers = [], tree = None, descriptors = [],
        descriptorInfo = Map.empty\<rparr>) = Some [Some ''B'']
   \<and> map_option (\<lambda>(out, st). descriptorInfo (snd (searchInput ''host'' ''b'' st)) ''host'')
        (loadDashboard 4 ''(A,B);'' \<lparr>columns = [''accession'', ''pmid'', ''host''],
        rows = [[''accession'' \<mapsto> ''A'', ''pmid'' \<mapsto> ''p1'', ''host'' \<mapsto> ''x''],
                [''accession'' \<mapsto> ''B'', ''pmid'' \<mapsto> ''p2'', ''host'' \<mapsto> ''NA'']]\<rparr> \<lparr>allSequences = [], sequences = [], papers = [], tree = None, descriptors = [],
        descriptorInfo = Map.empty\<rparr>) = Some (Some \<lparr>type = categorical, domain = [Str ''x'']\<rparr>)"
proof -
  let ?raw = "\<lparr>columns = [''accession'', ''pmid'', ''host''],
        rows = [[''accession'' \<mapsto> ''A'', ''pmid'' \<mapsto> ''p1'', ''host'' \<mapsto> ''x''],
                [''accession'' \<mapsto> ''B'', ''pmid'' \<mapsto> ''p2'', ''host'' \<mapsto> ''NA'']]\<rparr>"
  let ?st0 = "\<lparr>allSequences = [], sequences = [], papers = [], tree = None, descriptors = [],
        descriptorInfo = Map.empty\<rparr>"
  let ?L = "loadDashboard 4 ''(A,B);'' ?raw ?st0"
  have l: "map_option fst ?L = Some Loaded" by code_simp
  then obtain st where st: "?L = Some (Loaded, st)" by (cases ?L) auto
  have d: "map_option (\<lambda>(out, st). descriptors st) ?L = Some [''host'']" by code_simp
  with st have key: "''host'' \<in> set (descriptors st)" by simp
  have f: "map_option (\<lambda>(out, st). map accession (sequences (snd (searchInput ''host'' ''b'' st)))) ?L
      = Some [Some ''B'']" by code_simp
  have c: "analyzeColumn (map (\<lambda>s. descriptorOf s ''host'') (map ingestRow (rows ?raw)))
      = \<lparr>type = categorical, domain = [Str ''x'']\<rparr>" by code_simp
  from filtering_keeps_classification [of "''host''" "''b''" st _ 4 "''(A,B);''" ?raw ?st0 "''host''"] st key
  have "descriptorInfo (snd (searchInput ''host'' ''b'' st)) ''host''
      = Some (analyzeColumn (map (\<lambda>s. descriptorOf s ''host'') (map ingestRow (rows ?raw))))"
    by blast
  with c st have "map_option (\<lambda>(out, st). descriptorInfo (snd (searchInput ''host'' ''b'' st)) ''host'') ?L
      = Some (Some \<lparr>type = categorical, domain = [Str ''x'']\<rparr>)"
    by simp
  with l f show ?thesis by simp
qed

text \<open>
  Claim C7, as the code has it. When \<^verbatim>\<open>loadDashboard\<close> fails at one of its two guards, the
  CSV without a data row or the empty tree string, the state is the state before the
  call: the guards throw before the first assignment, and these are the only failures of
  this kind.
\<close>

theorem failed_validation_keeps_state:
  "(rows raw = [] \<longrightarrow>
      loadDashboard fuel newickString raw st = Some (Failed (Error ''CSV data is empty''), st))
   \<and> (rows raw \<noteq> [] \<and> newickString = [] \<longrightarrow>
      loadDashboard fuel newickString raw st = Some (Failed (Error ''Tree data is empty''), st))
   \<and> (loadDashboard fuel newickString raw st = Some (Failed (Error msg), st') \<longrightarrow>
      st' = st \<and> (rows raw = [] \<or> newickString = []))"
proof (intro conjI impI)
  assume "rows raw = []"
  then show "loadDashboard fuel newickString raw st = Some (Failed (Error ''CSV data is empty''), st)"
    by (simp add: loadDashboard_def)
next
  assume "rows raw \<noteq> [] \<and> newickString = []"
  then show "loadDashboard fuel newickString raw st = Some (Failed (Error ''Tree data is empty''), st)"
    by (simp add: loadDashboard_def)
next
  assume a: "loadDashboard fuel newickString raw st = Some (Failed (Error msg), st')"
  have dt: "\<And>c s e. drawTree c s = Some e \<Longrightarrow> e = TypeError"
    by (auto simp: drawTree_def split: option.splits if_splits)
  have g: "rows raw = [] \<or> newickString = []"
  proof (rule ccontr)
    assume "\<not> (rows raw = [] \<or> newickString = [])"
    then have n: "length (rows raw) \<noteq> 0" "newickString \<noteq> []" by simp_all
    show False
    proof (cases "parseNewick fuel newickString")
      case None
      with a n show False by (simp add: loadDashboard_def Let_def)
    next
      case (Some t)
      with a n show False
        by (auto simp: loadDashboard_def Let_def split: option.splits dest: dt)
    qed
  qed
  show "st' = st"
    using a g by (auto simp: loadDashboard_def split: if_splits)
  show "rows raw = [] \<or> newickString = []" by (rule g)
qed


theorem failed_validation_keeps_state_witness:
  "loadDashboard 4 ''(A,B);'' \<lparr>columns = [''accession'', ''pmid'', ''host''], rows = []\<rparr> \<lparr>allSequences = [\<lparr>accession = Some ''OLD'', pmid = None, seq_descriptors = Map.empty\<rparr>],
        sequences = [\<lparr>accession = Some ''OLD'', pmid = None, seq_descriptors = Map.empty\<rparr>],
        papers = [None], tree = Some (Node None (Some ''OLD'') (Some zero)), descriptors = [],
        descriptorInfo = Map.empty\<rparr>
     = Some (Failed (Error ''CSV data is empty''), \<lparr>allSequences = [\<lparr>accession = Some ''OLD'', pmid = None, seq_descriptors = Map.empty\<rparr>],
        sequences = [\<lparr>accession = Some ''OLD'', pmid = None, seq_descriptors = Map.empty\<rparr>],
        papers = [None], tree = Some (Node None (Some ''OLD'') (Some zero)), descriptors = [],
        descriptorInfo = Map.empty\<rparr>)
   \<and> loadDashboard 4 [] \<lparr>columns = [''accession'', ''pmid'', ''host''],
        rows = [[''accession'' \<mapsto> ''A'', ''pmid'' \<mapsto> ''p1'', ''host'' \<mapsto> ''x''],
                [''accession'' \<mapsto> ''B'', ''pmid'' \<mapsto> ''p2'', ''host'' \<mapsto> ''NA'']]\<rparr> \<lparr>allSequences = [\<lparr>accession = Some ''OLD'', pmid = None, seq_descriptors = Map.empty\<rparr>],
        sequences = [\<lparr>accession = Some ''OLD'', pmid = None, seq_descriptors = Map.empty\<rparr>],
        papers = [None], tree = Some (Node None (Some ''OLD'') (Some zero)), descriptors = [],
        descriptorInfo = Map.empty\<rparr>
     = Some (Failed (Error ''Tree data is empty''), \<lparr>allSequences = [\<lparr>accession = Some ''OLD'', pmid = None, seq_descriptors = Map.empty\<rparr>],
        sequences = [\<lparr>accession = Some ''OLD'', pmid = None, seq_descriptors = Map.empty\<rparr>],
        papers = [None], tree = Some (Node None (Some ''OLD'') (Some zero)), descriptors = [],
        descriptorInfo = Map.empty\<rparr>)"
proof -
  note csv = failed_validation_keeps_state [THEN conjunct1]
  note tre = failed_validation_keeps_state [THEN conjunct2, THEN conjunct1]
  have 1: "loadDashboard 4 ''(A,B);'' \<lparr>columns = [''accession'', ''pmid'', ''host''], rows = []\<rparr> \<lparr>allSequences = [\<lparr>accession = Some ''OLD'', pmid = None, seq_descriptors = Map.empty\<rparr>],
        sequences = [\<lparr>accession = Some ''OLD'', pmid = None, seq_descriptors = Map.empty\<rparr>],
        papers = [None], tree = Some (Node None (Some ''OLD'') (Some zero)), descriptors = [],
        descriptorInfo = Map.empty\<rparr>
     = Some (Failed (Error ''CSV data is empty''), \<lparr>allSequences = [\<lparr>accession = Some ''OLD'', pmid = None, seq_descriptors = Map.empty\<rparr>],
        sequences = [\<lparr>accession = Some ''OLD'', pmid = None, seq_descriptors = Map.empty\<rparr>],
        papers = [None], tree = Some (Node None (Some ''OLD'') (Some zero)), descriptors = [],
        descriptorInfo = Map.empty\<rparr>)"
    using csv [of "\<lparr>columns = [''accession'', ''pmid'', ''host''], rows = []\<rparr>"] by simp
  have 2: "loadDashboard 4 [] \<lparr>columns = [''accession'', ''pmid'', ''host''],
        rows = [[''accession'' \<mapsto> ''A'', ''pmid'' \<mapsto> ''p1'', ''host'' \<mapsto> ''x''],
                [''accession'' \<mapsto> ''B'', ''pmid'' \<mapsto> ''p2'', ''host'' \<mapsto> ''NA'']]\<rparr> \<lparr>allSequences = [\<lparr>accession = Some ''OLD'', pmid = None, seq_descriptors = Map.empty\<rparr>],
        sequences = [\<lparr>accession = Some ''OLD'', pmid = None, seq_descriptors = Map.empty\<rparr>],
        papers = [None], tree = Some (Node None (Some ''OLD'') (Some zero)), descriptors = [],
        descriptorInfo = Map.empty\<rparr>
     = Some (Failed (Error ''Tree data is empty''), \<lparr>allSequences = [\<lparr>accession = Some ''OLD'', pmid = None, seq_descriptors = Map.empty\<rparr>],
        sequences = [\<lparr>accession = Some ''OLD'', pmid = None, seq_descriptors = Map.empty\<rparr>],
        papers = [None], tree = Some (Node None (Some ''OLD'') (Some zero)), descriptors = [],
        descriptorInfo = Map.empty\<rparr>)"
    using tre [of "\<lparr>columns = [''accession'', ''pmid'', ''host''],
        rows = [[''accession'' \<mapsto> ''A'', ''pmid'' \<mapsto> ''p1'', ''host'' \<mapsto> ''x''],
                [''accession'' \<mapsto> ''B'', ''pmid'' \<mapsto> ''p2'', ''host'' \<mapsto> ''NA'']]\<rparr>" "[]"] by simp
  from 1 2 show ?thesis by simp
qed

text \<open>
  Claim C7 as stated fails for an error thrown after the guards. The tree text \<^verbatim>\<open>();\<close>
  parses to a group without children and without a name, which the hierarchy treats as
  a leaf; labelling it throws a \<^verbatim>\<open>TypeError\<close>, the load fails, and the records and the
  tree of the previous data set have already been replaced.
\<close>

theorem failed_reload_overwrites_state:
  "map_option fst (loadDashboard 4 ''();'' \<lparr>columns = [''accession'', ''pmid'', ''host''],
        rows = [[''accession'' \<mapsto> ''A'', ''pmid'' \<mapsto> ''p1'', ''host'' \<mapsto> ''x''],
                [''accession'' \<mapsto> ''B'', ''pmid'' \<mapsto> ''p2'', ''host'' \<mapsto> ''NA'']]\<rparr> \<lparr>allSequences = [\<lparr>accession = Some ''OLD'', pmid = None, seq_descriptors = Map.empty\<rparr>],
        sequences = [\<lparr>accession = Some ''OLD'', pmid = None, seq_descriptors = Map.empty\<rparr>],
        papers = [None], tree = Some (Node None (Some ''OLD'') (Some zero)), descriptors = [],
        descriptorInfo = Map.empty\<rparr>) = Some (Failed TypeError)
   \<and> map_option (map accession \<circ> sequences \<circ> snd) (loadDashboard 4 ''();'' \<lparr>columns = [''accession'', ''pmid'', ''host''],
        rows = [[''accession'' \<mapsto> ''A'', ''pmid'' \<mapsto> ''p1'', ''host'' \<mapsto> ''x''],
                [''accession'' \<mapsto> ''B'', ''pmid'' \<mapsto> ''p2'', ''host'' \<mapsto> ''NA'']]\<rparr> \<lparr>allSequences = [\<lparr>accession = Some ''OLD'', pmid = None, seq_descriptors = Map.empty\<rparr>],
        sequences = [\<lparr>accession = Some ''OLD'', pmid = None, seq_descriptors = Map.empty\<rparr>],
        papers = [None], tree = Some (Node None (Some ''OLD'') (Some zero)), descriptors = [],
        descriptorInfo = Map.empty\<rparr>)
       = Some [Some ''A'', Some ''B'']
   \<and> map_option (tree \<circ> snd) (loadDashboard 4 ''();'' \<lparr>columns = [''accession'', ''pmid'', ''host''],
        rows = [[''accession'' \<mapsto> ''A'', ''pmid'' \<mapsto> ''p1'', ''host'' \<mapsto> ''x''],
                [''accession'' \<mapsto> ''B'', ''pmid'' \<mapsto> ''p2'', ''host'' \<mapsto> ''NA'']]\<rparr> \<lparr>allSequences = [\<lparr>accession = Some ''OLD'', pmid = None, seq_descriptors = Map.empty\<rparr>],
        sequences = [\<lparr>accession = Some ''OLD'', pmid = None, seq_descriptors = Map.empty\<rparr>],
        papers = [None], tree = Some (Node None (Some ''OLD'') (Some zero)), descriptors = [],
        descriptorInfo = Map.empty\<rparr>)
       = Some (Some (Node (Some []) None None))
   \<and> map accession (sequences \<lparr>allSequences = [\<lparr>accession = Some ''OLD'', pmid = None, seq_descriptors = Map.empty\<rparr>],
        sequences = [\<lparr>accession = Some ''OLD'', pmid = None, seq_descriptors = Map.empty\<rparr>],
        papers = [None], tree = Some (Node None (Some ''OLD'') (Some zero)), descriptors = [],
        descriptorInfo = Map.empty\<rparr>) = [Some ''OLD'']
   \<and> tree \<lparr>allSequences = [\<lparr>accession = Some ''OLD'', pmid = None, seq_descriptors = Map.empty\<rparr>],
        sequences = [\<lparr>accession = Some ''OLD'', pmid = None, seq_descriptors = Map.empty\<rparr>],
        papers = [None], tree = Some (Node None (Some ''OLD'') (Some zero)), descriptors = [],
        descriptorInfo = Map.empty\<rparr> = Some (Node None (Some ''OLD'') (Some zero))"
proof -
  have 1: "map_option fst (loadDashboard 4 ''();'' \<lparr>columns = [''accession'', ''pmid'', ''host''],
        rows = [[''accession'' \<mapsto> ''A'', ''pmid'' \<mapsto> ''p1'', ''host'' \<mapsto> ''x''],
                [''accession'' \<mapsto> ''B'', ''pmid'' \<mapsto> ''p2'', ''host'' \<mapsto> ''NA'']]\<rparr> \<lparr>allSequences = [\<lparr>accession = Some ''OLD'', pmid = None, seq_descriptors = Map.empty\<rparr>],
        sequences = [\<lparr>accession = Some ''OLD'', pmid = None, seq_descriptors = Map.empty\<rparr>],
        papers = [None], tree = Some (Node None (Some ''OLD'') (Some zero)), descriptors = [],
        descriptorInfo = Map.empty\<rparr>) = Some (Failed TypeError)"
    by code_simp
  have 2: "map_option (map accession \<circ> sequences \<circ> snd) (loadDashboard 4 ''();'' \<lparr>columns = [''accession'', ''pmid'', ''host''],
        rows = [[''accession'' \<mapsto> ''A'', ''pmid'' \<mapsto> ''p1'', ''host'' \<mapsto> ''x''],
                [''accession'' \<mapsto> ''B'', ''pmid'' \<mapsto> ''p2'', ''host'' \<mapsto> ''NA'']]\<rparr> \<lparr>allSequences = [\<lparr>accession = Some ''OLD'', pmid = None, seq_descriptors = Map.empty\<rparr>],
        sequences = [\<lparr>accession = Some ''OLD'', pmid = None, seq_descriptors = Map.empty\<rparr>],
        papers = [None], tree = Some (Node None (Some ''OLD'') (Some zero)), descriptors = [],
        descriptorInfo = Map.empty\<rparr>)
       = Some [Some ''A'', Some ''B'']"
    by code_simp
  have 3: "map_option (tree \<circ> snd) (loadDashboard 4 ''();'' \<lparr>columns = [''accession'', ''pmid'', ''host''],
        rows = [[''accession'' \<mapsto> ''A'', ''pmid'' \<mapsto> ''p1'', ''host'' \<mapsto> ''x''],
                [''accession'' \<mapsto> ''B'', ''pmid'' \<mapsto> ''p2'', ''host'' \<mapsto> ''NA'']]\<rparr> \<lparr>allSequences = [\<lparr>accession = Some ''OLD'', pmid = None, seq_descriptors = Map.empty\<rparr>],
        sequences = [\<lparr>accession = Some ''OLD'', pmid = None, seq_descriptors = Map.empty\<rparr>],
        papers = [None], tree = Some (Node None (Some ''OLD'') (Some zero)), descriptors = [],
        descriptorInfo = Map.empty\<rparr>)
       = Some (Some (Node (Some []) None None))"
    by code_simp
  from 1 2 3 show ?thesis by simp
qed

end
